theory Spec2Isabelle
  imports Main "HOL-Library.Sublist"
begin

section \<open>Text helpers of \<open>server.js\<close>\<close>

text \<open>
  JavaScript strings are modelled as \<open>string\<close>; header names and cell texts are taken
  to be ASCII, so that the white space of \<open>trim\<close> and of the regular expressions, the
  digits and \<open>toLowerCase\<close> are the ASCII ones. Console output is not modelled.
\<close>

definition is_space :: "char \<Rightarrow> bool" where
  "is_space c = (c \<in> set [CHR '' '', CHR 0x09, CHR 0x0A, CHR 0x0B, CHR 0x0C, CHR 0x0D])"

definition is_digit :: "char \<Rightarrow> bool" where
  "is_digit c = (c \<in> set ''0123456789'')"

text \<open>\<^verbatim>\<open>s.trim()\<close>\<close>

definition trim :: "string \<Rightarrow> string" where
  "trim s = rev (dropWhile is_space (rev (dropWhile is_space s)))"

text \<open>\<^verbatim>\<open>s.replace(/\D+/g, '')\<close>\<close>

definition strip_non_digits :: "string \<Rightarrow> string" where
  "strip_non_digits s = filter is_digit s"

text \<open>\<^verbatim>\<open>s.replace(/\s+/g, '')\<close>\<close>

definition strip_spaces :: "string \<Rightarrow> string" where
  "strip_spaces s = filter (\<lambda>c. \<not> is_space c) s"

text \<open>\<^verbatim>\<open>s.replace(/\s+/g, ' ')\<close>: every maximal run of white space becomes one blank.\<close>

function collapse_spaces :: "string \<Rightarrow> string" where
  "collapse_spaces [] = []"
| "collapse_spaces (c # cs) =
     (if is_space c then CHR '' '' # collapse_spaces (dropWhile is_space cs)
      else c # collapse_spaces cs)"
  by pat_completeness auto
termination
  by (relation "measure length") (auto simp: length_dropWhile_le less_Suc_eq_le)

definition lower_char :: "char \<Rightarrow> char" where
  "lower_char c =
     (case map_of (zip ''ABCDEFGHIJKLMNOPQRSTUVWXYZ'' ''abcdefghijklmnopqrstuvwxyz'') c of
        Some l \<Rightarrow> l
      | None \<Rightarrow> c)"

text \<open>\<^verbatim>\<open>s.toLowerCase()\<close>\<close>

definition toLowerCase :: "string \<Rightarrow> string" where
  "toLowerCase s = map lower_char s"

section \<open>Run configuration\<close>

text \<open>
  \<open>argv\<close> is \<^verbatim>\<open>process.argv\<close>; the four optional numbers are the environment
  overrides of the timeouts (\<open>None\<close> when the variable is unset or empty).
\<close>

record config =
  argv :: "string list"
  env_LOGIN_PAGE_LOAD_TIMEOUT_MS :: "nat option"
  env_POST_LOGIN_WAIT_TIMEOUT_MS :: "nat option"
  env_OTP_WAIT_TIMEOUT_MS :: "nat option"
  env_STATUS_WAIT_TIMEOUT_MS :: "nat option"

definition env_or :: "nat option \<Rightarrow> nat \<Rightarrow> nat" where
  "env_or v d = (case v of Some n \<Rightarrow> n | None \<Rightarrow> d)"

definition LOGIN_PAGE_LOAD_TIMEOUT_MS :: "config \<Rightarrow> nat" where
  "LOGIN_PAGE_LOAD_TIMEOUT_MS cfg = env_or (env_LOGIN_PAGE_LOAD_TIMEOUT_MS cfg) 30000"

definition POST_LOGIN_WAIT_TIMEOUT_MS :: "config \<Rightarrow> nat" where
  "POST_LOGIN_WAIT_TIMEOUT_MS cfg = env_or (env_POST_LOGIN_WAIT_TIMEOUT_MS cfg) (10 * 60 * 1000)"

definition OTP_WAIT_TIMEOUT_MS :: "config \<Rightarrow> nat" where
  "OTP_WAIT_TIMEOUT_MS cfg = env_or (env_OTP_WAIT_TIMEOUT_MS cfg) (10 * 60 * 1000)"

definition BRAND :: "config \<Rightarrow> string" where
  "BRAND cfg = (if ''--agoda'' \<in> set (argv cfg) then ''agoda'' else ''booking'')"

definition hasFlag :: "config \<Rightarrow> string \<Rightarrow> bool" where
  "hasFlag cfg flag = (flag \<in> set (argv cfg))"

definition REVIEW_MODE :: "config \<Rightarrow> bool" where
  "REVIEW_MODE cfg =
     (hasFlag cfg ''--review'' \<or> (BRAND cfg = ''agoda'' \<and> \<not> hasFlag cfg ''--no-review''))"

definition STATUS_WAIT_TIMEOUT_MS :: "config \<Rightarrow> nat" where
  "STATUS_WAIT_TIMEOUT_MS cfg =
     env_or (env_STATUS_WAIT_TIMEOUT_MS cfg) (if BRAND cfg = ''agoda'' then 120000 else 60000)"

section \<open>Records of the sheet\<close>

text \<open>
  A row is the object \<^verbatim>\<open>sheet_to_json\<close> yields for one sheet line: its keys (the
  headers, in \<^verbatim>\<open>Object.keys\<close> order) with the text \<^verbatim>\<open>toString()\<close> gives for the
  cell value. Every use of a cell in \<open>main\<close> goes through \<^verbatim>\<open>toString()\<close>, and with
  \<^verbatim>\<open>defval: ''\<close> no cell is null, so a missing key is the only nullish case.
\<close>

type_synonym row = "(string \<times> string) list"

text \<open>\<^verbatim>\<open>a ?? b\<close> on a property that is \<open>undefined\<close> exactly when the key is absent.\<close>

definition nullish_or :: "'a option \<Rightarrow> 'a \<Rightarrow> 'a" where
  "nullish_or a b = (case a of Some v \<Rightarrow> v | None \<Rightarrow> b)"

text \<open>
  \<^verbatim>\<open>(row.STATUS ?? row.Status ?? row.status ?? '').toString().trim()\<close>
\<close>

definition statusCell :: "row \<Rightarrow> string" where
  "statusCell row =
     trim (nullish_or (map_of row ''STATUS'')
          (nullish_or (map_of row ''Status'')
          (nullish_or (map_of row ''status'') [])))"

definition normalizeKey :: "string \<Rightarrow> string" where
  "normalizeKey s = collapse_spaces (toLowerCase (trim s))"

text \<open>
  \<^verbatim>\<open>Object.keys(row).reduce((acc, k) => { acc[normalizeKey(k)] = ...; return acc; }, {})\<close>
\<close>

definition normalizedRow :: "row \<Rightarrow> (string \<rightharpoonup> string)" where
  "normalizedRow row =
     fold (\<lambda>k acc. acc(normalizeKey k \<mapsto> trim (nullish_or (map_of row k) [])))
       (map fst row) Map.empty"

text \<open>First loop of \<open>valueByHeaders\<close>: own properties under the exact header.\<close>

fun first_own :: "row \<Rightarrow> string list \<Rightarrow> string option" where
  "first_own row [] = None"
| "first_own row (h # hs) =
     (case map_of row h of
        Some c \<Rightarrow> (let v = trim c in if v \<noteq> [] then Some v else first_own row hs)
      | None \<Rightarrow> first_own row hs)"

text \<open>Second loop of \<open>valueByHeaders\<close>: the normalised header in the normalised row.\<close>

fun first_normalized :: "(string \<rightharpoonup> string) \<Rightarrow> string list \<Rightarrow> string option" where
  "first_normalized nrow [] = None"
| "first_normalized nrow (h # hs) =
     (case nrow (normalizeKey h) of
        Some v \<Rightarrow> (if v \<noteq> [] then Some v else first_normalized nrow hs)
      | None \<Rightarrow> first_normalized nrow hs)"

definition valueByHeaders :: "row \<Rightarrow> string list \<Rightarrow> string" where
  "valueByHeaders row headers =
     (case first_own row headers of
        Some v \<Rightarrow> v
      | None \<Rightarrow>
          (case first_normalized (normalizedRow row) headers of
             Some v \<Rightarrow> v
           | None \<Rightarrow> []))"

definition cvvDigitsEarly :: "row \<Rightarrow> string" where
  "cvvDigitsEarly row = strip_non_digits (valueByHeaders row [''CVV'', ''Security Code'', ''CVV2''])"

section \<open>Page automation, errors and promises\<close>

text \<open>
  Every call \<open>main\<close> makes to Puppeteer (\<open>page.*\<close>, \<open>browser.*\<close>) is an action, and
  so is the access to the input file in \<open>writeStatusToExcel\<close>. The numbers are the
  timeouts, the click counts and the typing delays the source passes; \<open>WriteStatus\<close>
  carries the row index and the value.
\<close>

datatype action =
    ImportPuppeteer
  | Launch
  | NewPage
  | Goto string nat
  | WaitForFunctionAny "string list" nat
  | WaitForFunctionText string string nat
  | WaitForFunctionHeading nat
  | WaitForSelector string nat
  | WaitForNavigation nat
  | Click string nat
  | Focus string
  | Type string string nat
  | Press string
  | Select string string
  | EvalInstallGuard
  | EvalValue string
  | EvalClear string
  | EvalSetValue string string
  | EvalChecked string
  | EvalScrollIntoView string
  | EvalForceChecked string
  | EvalSubmit
  | EvalStatusText
  | WriteStatus nat string
  | BrowserClose

text \<open>
  The errors: the \<open>TimeoutError\<close> of a Puppeteer wait, whose message names the timeout;
  any other failure of a page call; the error of an unsupported stage type in
  \<open>raceStages\<close>; the error of \<open>waitForStatusText\<close>, with the timeout and the text last
  seen; a failure of the sheet.
\<close>

datatype error =
    TimeoutError nat
  | PageError string
  | UnsupportedStageType
  | StatusTimedOut nat string
  | StoreError string

text \<open>
  A promise is already settled when it is created (\<^verbatim>\<open>Promise.reject(...)\<close>), settles
  the given number of milliseconds after it was created, or never settles.
\<close>

datatype 'a promise = Settled "error + 'a" | Later nat "error + 'a" | Never

text \<open>\<^verbatim>\<open>p.then(f)\<close> and \<^verbatim>\<open>p.catch(h)\<close> for handlers without effects.\<close>

definition pthen :: "'a promise \<Rightarrow> ('a \<Rightarrow> 'b) \<Rightarrow> 'b promise" where
  "pthen p f =
     (case p of
        Settled r \<Rightarrow> Settled (case r of Inl e \<Rightarrow> Inl e | Inr v \<Rightarrow> Inr (f v))
      | Later d r \<Rightarrow> Later d (case r of Inl e \<Rightarrow> Inl e | Inr v \<Rightarrow> Inr (f v))
      | Never \<Rightarrow> Never)"

definition pcatch :: "'a promise \<Rightarrow> (error \<Rightarrow> 'a) \<Rightarrow> 'a promise" where
  "pcatch p h =
     (case p of
        Settled r \<Rightarrow> Settled (case r of Inl e \<Rightarrow> Inr (h e) | Inr v \<Rightarrow> Inr v)
      | Later d r \<Rightarrow> Later d (case r of Inl e \<Rightarrow> Inr (h e) | Inr v \<Rightarrow> Inr v)
      | Never \<Rightarrow> Never)"

text \<open>
  \<^verbatim>\<open>Promise.race\<close>: the reaction of a promise that is already settled runs first, in
  list order; otherwise the promise that settles earliest wins, the earlier in the list
  among those that settle at the same time.
\<close>

fun first_settled :: "'a promise list \<Rightarrow> (error + 'a) option" where
  "first_settled [] = None"
| "first_settled (Settled r # ps) = Some r"
| "first_settled (p # ps) = first_settled ps"

fun earliest :: "'a promise list \<Rightarrow> (nat \<times> (error + 'a)) option" where
  "earliest [] = None"
| "earliest (Later d r # ps) =
     (case earliest ps of
        Some (d', r') \<Rightarrow> if d' < d then Some (d', r') else Some (d, r)
      | None \<Rightarrow> Some (d, r))"
| "earliest (p # ps) = earliest ps"

definition promise_race :: "'a promise list \<Rightarrow> 'a promise" where
  "promise_race ps =
     (case first_settled ps of
        Some r \<Rightarrow> Settled r
      | None \<Rightarrow> (case earliest ps of Some (d, r) \<Rightarrow> Later d r | None \<Rightarrow> Never))"

text \<open>
  \<^verbatim>\<open>Promise.all\<close>: rejects with the first rejection; otherwise it is fulfilled when
  the last promise is, and pending for ever when one of them is.
\<close>

definition rejecting :: "'a promise \<Rightarrow> bool" where
  "rejecting p = (case p of Settled (Inl e) \<Rightarrow> True | Later d (Inl e) \<Rightarrow> True | _ \<Rightarrow> False)"

fun fulfilled_values :: "'a promise list \<Rightarrow> 'a list" where
  "fulfilled_values [] = []"
| "fulfilled_values (Settled (Inr v) # ps) = v # fulfilled_values ps"
| "fulfilled_values (Later d (Inr v) # ps) = v # fulfilled_values ps"
| "fulfilled_values (p # ps) = fulfilled_values ps"

fun latest :: "'a promise list \<Rightarrow> nat option" where
  "latest [] = None"
| "latest (Later d r # ps) = (case latest ps of Some d' \<Rightarrow> Some (max d d') | None \<Rightarrow> Some d)"
| "latest (p # ps) = latest ps"

definition promise_all :: "'a promise list \<Rightarrow> 'a list promise" where
  "promise_all ps =
     (if list_ex rejecting ps then pthen (promise_race (filter rejecting ps)) (\<lambda>_. [])
      else if list_ex (\<lambda>p. p = Never) ps then Never
      else (case latest ps of
              Some d \<Rightarrow> Later d (Inr (fulfilled_values ps))
            | None \<Rightarrow> Settled (Inr (fulfilled_values ps))))"

section \<open>The input file\<close>

text \<open>
  The first sheet of the workbook at \<open>INPUT_XLSX\<close>, as the \<open>xlsx\<close> library holds it:
  the range \<^verbatim>\<open>ws['!ref']\<close> (start and end, line and column, zero based) and the cells
  by address (line, column). A cell is its text; a cell that is absent is \<open>None\<close>.
\<close>

record worksheet =
  range_s_r :: nat
  range_s_c :: nat
  range_e_r :: nat
  range_e_c :: nat
  cells :: "nat \<times> nat \<rightharpoonup> string"

text \<open>
  \<^verbatim>\<open>xlsx.utils.sheet_to_json(ws, { defval: '' })\<close>, a function of the \<open>xlsx\<close> library:
  the first line of the range holds the headers; every later line of the range that has
  at least one cell yields one object, with the cell text, or \<open>''\<close> for an absent cell,
  under each header; a line without any cell yields nothing (\<open>blankrows\<close> is off when
  objects are asked for). Header cells are taken to be present and distinct, so that the
  library's renaming of empty and repeated headers does not arise.
\<close>

definition sheet_to_json :: "worksheet \<Rightarrow> row list" where
  "sheet_to_json ws =
     (let cols = [range_s_c ws ..< Suc (range_e_c ws)];
          hdr = (\<lambda>c. nullish_or (cells ws (range_s_r ws, c)) [])
      in map (\<lambda>r. map (\<lambda>c. (hdr c, nullish_or (cells ws (r, c)) [])) cols)
           (filter (\<lambda>r. list_ex (\<lambda>c. cells ws (r, c) \<noteq> None) cols)
              [Suc (range_s_r ws) ..< Suc (range_e_r ws)]))"

text \<open>
  \<open>readAllRowsFromExcel\<close> (lines 115 to 125), on the sheet of the file, or on \<open>None\<close>
  when the file does not exist.
\<close>

definition readAllRowsFromExcel :: "worksheet option \<Rightarrow> error + row list" where
  "readAllRowsFromExcel file =
     (case file of
        None \<Rightarrow> Inl (StoreError ''Input file not found'')
      | Some ws \<Rightarrow> Inr (sheet_to_json ws))"

text \<open>
  Lines 141 to 147 of \<open>writeStatusToExcel\<close>: the first column of the range whose header,
  trimmed and in lower case, is \<open>status\<close>.
\<close>

definition find_statusCol :: "worksheet \<Rightarrow> nat option" where
  "find_statusCol ws =
     List.find
       (\<lambda>c. (case cells ws (range_s_r ws, c) of
               Some t \<Rightarrow> toLowerCase (trim t)
             | None \<Rightarrow> []) = ''status'')
       [range_s_c ws ..< Suc (range_e_c ws)]"

text \<open>
  Lines 139 to 161 of \<open>writeStatusToExcel\<close>, on the sheet read from the file: a new
  \<open>STATUS\<close> column after the last one when no status column is found, then the value
  at line \<open>headerRow + 1 + rowIndexZeroBased\<close> of the status column, the range growing
  with both.
\<close>

definition write_status :: "worksheet \<Rightarrow> nat \<Rightarrow> string \<Rightarrow> worksheet" where
  "write_status ws rowIndexZeroBased statusValue =
     (let headerRow = range_s_r ws;
          statusCol = (case find_statusCol ws of Some c \<Rightarrow> c | None \<Rightarrow> range_e_c ws + 1);
          ws1 = (case find_statusCol ws of
                   Some c \<Rightarrow> ws
                 | None \<Rightarrow> ws\<lparr>range_e_c := statusCol,
                            cells := (cells ws)((headerRow, statusCol) \<mapsto> ''STATUS'')\<rparr>);
          targetRow = headerRow + 1 + rowIndexZeroBased;
          ws2 = ws1\<lparr>cells := (cells ws1)((targetRow, statusCol) \<mapsto> statusValue)\<rparr>
      in if targetRow > range_e_r ws2 then ws2\<lparr>range_e_r := targetRow\<rparr> else ws2)"

section \<open>The world and asynchronous computations\<close>

text \<open>
  The world: the clock (\<^verbatim>\<open>Date.now()\<close>, in milliseconds), the actions issued so far, and
  the sheet of the input file (\<open>None\<close> when there is no such file).
\<close>

record world =
  now :: nat
  trace :: "action list"
  workbook :: "worksheet option"

text \<open>
  The environment answers an action, given the actions before it, with the time the
  answer takes and the answer: a failure or a value. Calls awaited only for completion
  use \<open>perform\<close>; \<open>read_text\<close> answers the in-page callbacks that return a string,
  \<open>read_flag\<close> those that return \<^verbatim>\<open>el.checked\<close>. Every call to the outside settles.
\<close>

record env =
  perform :: "action list \<Rightarrow> action \<Rightarrow> nat \<times> (error + unit)"
  read_text :: "action list \<Rightarrow> action \<Rightarrow> nat \<times> (error + string)"
  read_flag :: "action list \<Rightarrow> action \<Rightarrow> nat \<times> (error + bool)"

text \<open>
  An \<^verbatim>\<open>async\<close> computation returns, throws, or stays suspended at an \<^verbatim>\<open>await\<close> for ever.
\<close>

datatype 'a outcome = Returns 'a | Throws error | Suspends

type_synonym 'a io = "world \<Rightarrow> 'a outcome \<times> world"

definition ret :: "'a \<Rightarrow> 'a io" where
  "ret x w = (Returns x, w)"

definition throw :: "error \<Rightarrow> 'a io" where
  "throw e w = (Throws e, w)"

definition io_bind :: "'a io \<Rightarrow> ('a \<Rightarrow> 'b io) \<Rightarrow> 'b io" where
  "io_bind m f w =
     (case m w of
        (Returns x, w') \<Rightarrow> f x w'
      | (Throws e, w') \<Rightarrow> (Throws e, w')
      | (Suspends, w') \<Rightarrow> (Suspends, w'))"

definition seq :: "'a io \<Rightarrow> 'b io \<Rightarrow> 'b io" where
  "seq m n = io_bind m (\<lambda>_. n)"

fun block :: "unit io list \<Rightarrow> unit io" where
  "block [] = ret ()"
| "block (m # ms) = seq m (block ms)"

text \<open>\<^verbatim>\<open>try { m } catch (e) { h e }\<close>\<close>

definition try_catch :: "'a io \<Rightarrow> (error \<Rightarrow> 'a io) \<Rightarrow> 'a io" where
  "try_catch m h w =
     (case m w of
        (Throws e, w') \<Rightarrow> h e w'
      | (Returns x, w') \<Rightarrow> (Returns x, w')
      | (Suspends, w') \<Rightarrow> (Suspends, w'))"

text \<open>\<^verbatim>\<open>try { m } catch (_) {}\<close> and \<^verbatim>\<open>.catch(() => {})\<close> on an awaited call.\<close>

definition ignoring :: "unit io \<Rightarrow> unit io" where
  "ignoring m = try_catch m (\<lambda>_. ret ())"

definition if_then :: "bool \<Rightarrow> unit io \<Rightarrow> unit io" where
  "if_then b m = (if b then m else ret ())"

text \<open>Issuing a call appends it to the trace and yields its promise.\<close>

definition issue :: "(action list \<Rightarrow> action \<Rightarrow> nat \<times> (error + 'a)) \<Rightarrow> action \<Rightarrow> 'a promise io" where
  "issue oracle a w =
     (case oracle (trace w) a of
        (d, r) \<Rightarrow> (Returns (Later d r), w\<lparr>trace := trace w @ [a]\<rparr>))"

definition await :: "'a promise \<Rightarrow> 'a io" where
  "await p w =
     (case p of
        Settled (Inl e) \<Rightarrow> (Throws e, w)
      | Settled (Inr v) \<Rightarrow> (Returns v, w)
      | Later d (Inl e) \<Rightarrow> (Throws e, w\<lparr>now := now w + d\<rparr>)
      | Later d (Inr v) \<Rightarrow> (Returns v, w\<lparr>now := now w + d\<rparr>)
      | Never \<Rightarrow> (Suspends, w))"

text \<open>\<^verbatim>\<open>await new Promise(() => {})\<close>\<close>

definition suspend :: "unit io" where
  "suspend = await Never"

text \<open>\<^verbatim>\<open>await sleep(ms)\<close>, with \<^verbatim>\<open>sleep\<close> a \<^verbatim>\<open>setTimeout\<close> of \<open>ms\<close>.\<close>

definition sleep :: "nat \<Rightarrow> unit io" where
  "sleep ms = await (Later ms (Inr ()))"

text \<open>\<^verbatim>\<open>await page.f(...)\<close> for a call awaited at once.\<close>

definition call :: "env \<Rightarrow> action \<Rightarrow> unit io" where
  "call pg a = io_bind (issue (perform pg) a) await"

definition call_text :: "env \<Rightarrow> action \<Rightarrow> string io" where
  "call_text pg a = io_bind (issue (read_text pg) a) await"

definition call_flag :: "env \<Rightarrow> action \<Rightarrow> bool io" where
  "call_flag pg a = io_bind (issue (read_flag pg) a) await"

text \<open>An awaited promise whose value is dropped.\<close>

definition await_unit :: "'a promise \<Rightarrow> unit io" where
  "await_unit p = io_bind (await p) (\<lambda>_. ret ())"

section \<open>Waits and the stage race\<close>

definition waitForAnySelector :: "env \<Rightarrow> string list \<Rightarrow> nat \<Rightarrow> unit promise io" where
  "waitForAnySelector pg selectors timeoutMs =
     issue (perform pg) (WaitForFunctionAny selectors timeoutMs)"

definition waitForText :: "env \<Rightarrow> string \<Rightarrow> string \<Rightarrow> nat \<Rightarrow> unit promise io" where
  "waitForText pg selector includesText timeoutMs =
     issue (perform pg) (WaitForFunctionText selector includesText timeoutMs)"

text \<open>A stage object; a field the literal does not set is the empty value.\<close>

record stage =
  stage_name :: string
  stage_type :: string
  stage_selectors :: "string list"
  stage_selector :: string
  stage_text :: string

text \<open>The callback of \<^verbatim>\<open>stages.map\<close> in \<open>raceStages\<close>.\<close>

definition stage_promise :: "env \<Rightarrow> nat \<Rightarrow> stage \<Rightarrow> string promise io" where
  "stage_promise pg timeoutMs st =
     (if stage_type st = ''selectors'' then
        io_bind (waitForAnySelector pg (stage_selectors st) timeoutMs)
          (\<lambda>p. ret (pthen p (\<lambda>_. stage_name st)))
      else if stage_type st = ''text'' then
        io_bind (waitForText pg (stage_selector st) (stage_text st) timeoutMs)
          (\<lambda>p. ret (pthen p (\<lambda>_. stage_name st)))
      else ret (Settled (Inl UnsupportedStageType)))"

fun map_io :: "('a \<Rightarrow> 'b io) \<Rightarrow> 'a list \<Rightarrow> 'b list io" where
  "map_io f [] = ret []"
| "map_io f (x # xs) = io_bind (f x) (\<lambda>y. io_bind (map_io f xs) (\<lambda>ys. ret (y # ys)))"

definition raceStages :: "env \<Rightarrow> stage list \<Rightarrow> nat \<Rightarrow> string promise io" where
  "raceStages pg stages timeoutMs =
     io_bind (map_io (stage_promise pg timeoutMs) stages) (\<lambda>promises. ret (promise_race promises))"

section \<open>Selectors\<close>

definition SELECTORS_login :: "string list" where
  \<open>SELECTORS_login =
     [''form[action="/session"]'', ''#login'', ''#password'', ''input.login-submit-button'']\<close>

definition SELECTORS_otp :: "string list" where
  \<open>SELECTORS_otp =
     [''form[action="/session/two_factor"]'', ''input[name="code"]'', ''h2.unified-login__title'']\<close>

definition SELECTORS_dashboard :: "string list" where
  \<open>SELECTORS_dashboard =
     [''input#q.unified-panel-search_input'', ''a[href*="/transactions/advanced_search"]'',
      ''h4.graph-title'']\<close>

definition SELECTORS_transactionsLink :: "string list" where
  \<open>SELECTORS_transactionsLink =
     [''a[onclick*="trackClick('transactions')"]'', ''a[href*="/transactions/advanced_search"]'']\<close>

definition SELECTORS_newTransactionLink :: "string list" where
  \<open>SELECTORS_newTransactionLink =
     [''a[onclick*="trackClick('new_transaction')"]'', ''a[href$="/transactions/new"]'']\<close>

definition SELECTORS_submitPage :: "string list" where
  \<open>SELECTORS_submitPage =
     [''body.transactions_show'', ''span.transaction-status'',
      ''h2:has-text("Transaction Detail")'']\<close>

definition FORM_merchantAccount :: string where
  "FORM_merchantAccount = ''#transaction_merchant_account_id''"

definition FORM_amount :: string where
  "FORM_amount = ''#transaction_amount''"

definition FORM_orderId :: string where
  "FORM_orderId = ''#transaction_order_id''"

definition FORM_customerFirstName :: string where
  "FORM_customerFirstName = ''#transaction_customer_first_name''"

definition FORM_cardholderName :: string where
  "FORM_cardholderName = ''#transaction_credit_card_cardholder_name''"

definition FORM_cardNumber :: string where
  "FORM_cardNumber = ''#transaction_credit_card_number''"

definition FORM_expirationDate :: string where
  "FORM_expirationDate = ''#transaction_credit_card_expiration_date''"

definition FORM_cvv :: string where
  "FORM_cvv = ''#transaction_credit_card_cvv''"

definition FORM_billingPostalCode :: string where
  "FORM_billingPostalCode = ''#transaction_billing_postal_code''"

definition FORM_billingCompany :: string where
  "FORM_billingCompany = ''#transaction_billing_company''"

definition FORM_billingFirstName :: string where
  "FORM_billingFirstName = ''#transaction_billing_first_name''"

definition FORM_billingStreet :: string where
  "FORM_billingStreet = ''#transaction_billing_street_address''"

definition FORM_billingRegion :: string where
  "FORM_billingRegion = ''#transaction_billing_region''"

definition FORM_billingCountryName :: string where
  "FORM_billingCountryName = ''#transaction_billing_country_name''"

definition FORM_skipPremiumFraudCheckbox :: string where
  "FORM_skipPremiumFraudCheckbox = ''#transaction_options_skip_advanced_fraud_checking''"

section \<open>The result poll\<close>

text \<open>
  The loop of \<open>waitForStatusText\<close>. A failed read is ignored; each round that neither
  returns nor throws sleeps one second, so the deadline is reached after finitely many
  rounds.
\<close>

function waitForStatusText_loop :: "env \<Rightarrow> nat \<Rightarrow> nat \<Rightarrow> string \<Rightarrow> string io" where
  "waitForStatusText_loop pg timeoutMs start lastSeen w =
     (case call_text pg EvalStatusText w of
        (Returns text, w1) \<Rightarrow>
          if text \<noteq> [] then (Returns text, w1)
          else if now w1 - start > timeoutMs then (Throws (StatusTimedOut timeoutMs text), w1)
          else (case sleep 1000 w1 of (_, w2) \<Rightarrow> waitForStatusText_loop pg timeoutMs start text w2)
      | (Throws e, w1) \<Rightarrow>
          if now w1 - start > timeoutMs then (Throws (StatusTimedOut timeoutMs lastSeen), w1)
          else (case sleep 1000 w1 of (_, w2) \<Rightarrow> waitForStatusText_loop pg timeoutMs start lastSeen w2)
      | (Suspends, w1) \<Rightarrow> (Suspends, w1))"
  by pat_completeness auto

lemma now_call_text: "call_text pg a w = (r, w1) \<Longrightarrow> now w \<le> now w1"
  by (auto simp: call_text_def io_bind_def issue_def await_def
      split: prod.splits outcome.splits promise.splits sum.splits)

lemma now_sleep: "sleep ms w = (r, w2) \<Longrightarrow> now w2 = now w + ms"
  by (auto simp: sleep_def await_def)

termination waitForStatusText_loop
proof (relation "measure (\<lambda>(pg, timeoutMs, start, lastSeen, w). start + timeoutMs + 1 - now w)",
    goal_cases)
  case 1
  show ?case by simp
next
  case (2 pg timeoutMs start lastSeen w x w1 tx u w2)
  then have "now w \<le> now w1" "now w2 = now w1 + 1000" "now w1 \<le> start + timeoutMs"
    using now_call_text [of pg EvalStatusText w x w1] now_sleep [of 1000 w1 u w2] by auto
  then show ?case by simp
next
  case (3 pg timeoutMs start lastSeen w x w1 e u w2)
  then have "now w \<le> now w1" "now w2 = now w1 + 1000" "now w1 \<le> start + timeoutMs"
    using now_call_text [of pg EvalStatusText w x w1] now_sleep [of 1000 w1 u w2] by auto
  then show ?case by simp
qed

definition waitForStatusText :: "env \<Rightarrow> nat \<Rightarrow> string io" where
  "waitForStatusText pg timeoutMs w = waitForStatusText_loop pg timeoutMs (now w) [] w"

section \<open>The row orchestrator: \<open>main\<close>\<close>

text \<open>
  \<^verbatim>\<open>await page.click(a).catch(async () => { await page.click(b); })\<close>
\<close>

definition click_or :: "env \<Rightarrow> string \<Rightarrow> string \<Rightarrow> unit io" where
  "click_or pg a b = try_catch (call pg (Click a 1)) (\<lambda>_. call pg (Click b 1))"

text \<open>The inner helper \<open>goToNewTransaction\<close> (lines 315 to 337).\<close>

definition goToNewTransaction :: "env \<Rightarrow> unit io" where
  "goToNewTransaction pg = block [
     io_bind (waitForAnySelector pg SELECTORS_transactionsLink 20000) await,
     click_or pg (SELECTORS_transactionsLink ! 0) (SELECTORS_transactionsLink ! 1),
     io_bind (waitForAnySelector pg SELECTORS_newTransactionLink 20000) (\<lambda>p1.
     io_bind (issue (perform pg) (WaitForNavigation 20000)) (\<lambda>p2.
       await (promise_race [p1, pcatch p2 (\<lambda>_. ())]))),
     click_or pg (SELECTORS_newTransactionLink ! 0) (SELECTORS_newTransactionLink ! 1),
     io_bind (issue (perform pg) (WaitForSelector ''body.transactions_new'' 20000)) (\<lambda>p1.
     io_bind (issue (perform pg) (WaitForNavigation 20000)) (\<lambda>p2.
       await (promise_race [pcatch p1 (\<lambda>_. ()), pcatch p2 (\<lambda>_. ())]))),
     try_catch (call pg (WaitForSelector ''body.transactions_new'' 20000))
       (\<lambda>_. block [
          io_bind (waitForAnySelector pg [''h2''] 20000) await,
          call pg (WaitForFunctionHeading 20000)])]"

text \<open>Lines 281 to 312: the login page, then the one-time-code page or the dashboard.\<close>

definition login :: "config \<Rightarrow> env \<Rightarrow> unit io" where
  "login cfg pg = block [
     call pg NewPage,
     call pg (Goto ''https://www.braintreegateway.com/login'' 60000),
     io_bind (waitForAnySelector pg SELECTORS_login (LOGIN_PAGE_LOAD_TIMEOUT_MS cfg)) await,
     io_bind
       (io_bind
          (raceStages pg
             [\<lparr>stage_name = ''otp'', stage_type = ''selectors'', stage_selectors = SELECTORS_otp,
               stage_selector = [], stage_text = []\<rparr>,
              \<lparr>stage_name = ''dashboard'', stage_type = ''selectors'',
               stage_selectors = SELECTORS_dashboard, stage_selector = [], stage_text = []\<rparr>]
             (POST_LOGIN_WAIT_TIMEOUT_MS cfg))
          await)
       (\<lambda>firstStage.
          if firstStage = ''otp'' then block [
            io_bind (waitForText pg ''h2.unified-login__title'' ''Two-Factor Authentication'' 5000)
              (\<lambda>p. await (pcatch p (\<lambda>_. ()))),
            io_bind (waitForAnySelector pg SELECTORS_dashboard (OTP_WAIT_TIMEOUT_MS cfg)) await]
          else ret ())]"

text \<open>Lines 406 to 409.\<close>

definition first4Digits :: "row \<Rightarrow> string" where
  "first4Digits row =
     take 4 (strip_non_digits (valueByHeaders row [''Card first 4'', ''Card First 4'', ''First 4'']))"

definition last12Digits :: "row \<Rightarrow> string" where
  "last12Digits row =
     take 12 (strip_non_digits (valueByHeaders row [''Card last 12'', ''Card Last 12'', ''Last 12'']))"

text \<open>The fields of \<open>formValues\<close> that depend on the row or on the brand.\<close>

definition formValues_merchantAccount :: "row \<Rightarrow> string" where
  "formValues_merchantAccount row =
     valueByHeaders row [''MAIDS'', ''Merchant Account'', ''Merchant Account ID'']"

definition formValues_amount :: "row \<Rightarrow> string" where
  "formValues_amount row = valueByHeaders row [''Amount'']"

definition formValues_orderId :: "row \<Rightarrow> string" where
  "formValues_orderId row = valueByHeaders row [''Reservation ID'', ''Order ID'']"

definition formValues_customerFirstName :: "row \<Rightarrow> string" where
  "formValues_customerFirstName row = valueByHeaders row [''Hotel Name'', ''First Name'']"

definition formValues_cardholderName :: "config \<Rightarrow> string" where
  "formValues_cardholderName cfg = (if BRAND cfg = ''agoda'' then ''Agoda Ltd.'' else ''BOOKING.COM'')"

definition formValues_cardNumber :: "row \<Rightarrow> string" where
  "formValues_cardNumber row =
     (if first4Digits row \<noteq> [] \<and> last12Digits row \<noteq> [] then first4Digits row @ last12Digits row
      else if first4Digits row \<noteq> [] then first4Digits row
      else if last12Digits row \<noteq> [] then last12Digits row
      else [])"

definition formValues_expirationDate :: "row \<Rightarrow> string" where
  "formValues_expirationDate row =
     strip_spaces (valueByHeaders row
       [''Expiry'', ''Expiration'', ''Expiration Date (MM/YYYY)'', ''Expiration Date'', ''Exp Date''])"

definition formValues_cvv :: "row \<Rightarrow> string" where
  "formValues_cvv row = valueByHeaders row [''CVV'', ''Security Code'', ''CVV2'']"

definition formValues_billingPostalCode :: "config \<Rightarrow> string" where
  "formValues_billingPostalCode cfg = (if BRAND cfg = ''agoda'' then ''80525'' else ''10118'')"

definition formValues_billingCountryName :: string where
  "formValues_billingCountryName = ''United States of America''"

text \<open>
  The three calls the source repeats for each typed field: focus, triple click, type.
\<close>

definition type_into :: "env \<Rightarrow> string \<Rightarrow> string \<Rightarrow> nat \<Rightarrow> unit io" where
  "type_into pg sel v delay = block [
     call pg (Focus sel),
     call pg (Click sel 3),
     call pg (Type sel v delay)]"

text \<open>Lines 456 to 470: the card number and its read-back.\<close>

definition fill_cardNumber :: "env \<Rightarrow> row \<Rightarrow> unit io" where
  "fill_cardNumber pg row =
     if_then (formValues_cardNumber row \<noteq> []) (block [
       type_into pg FORM_cardNumber (formValues_cardNumber row) 10,
       ignoring
         (io_bind (call_text pg (EvalValue FORM_cardNumber)) (\<lambda>typed.
            let typedDigits = strip_non_digits typed;
                expectedDigits = first4Digits row @ last12Digits row
            in if_then (expectedDigits \<noteq> [] \<and> length typedDigits < length expectedDigits)
                 (call pg (Type FORM_cardNumber (drop (length typedDigits) expectedDigits) 10))))])"

text \<open>Lines 521 to 530: the fraud-check box.\<close>

definition tick_skipPremiumFraud :: "env \<Rightarrow> unit io" where
  "tick_skipPremiumFraud pg =
     io_bind (try_catch (call_flag pg (EvalChecked FORM_skipPremiumFraudCheckbox)) (\<lambda>_. ret False))
       (\<lambda>skipChecked.
          if_then (\<not> skipChecked) (block [
            ignoring (call pg (EvalScrollIntoView FORM_skipPremiumFraudCheckbox)),
            ignoring (call pg (Click FORM_skipPremiumFraudCheckbox 1)),
            io_bind
              (try_catch (call_flag pg (EvalChecked FORM_skipPremiumFraudCheckbox)) (\<lambda>_. ret False))
              (\<lambda>stillUnchecked.
                 if_then (\<not> stillUnchecked)
                   (call pg (EvalForceChecked FORM_skipPremiumFraudCheckbox)))]))"

text \<open>Lines 374 to 530 of the loop body: navigation and form fill.\<close>

definition fill_row :: "config \<Rightarrow> env \<Rightarrow> row \<Rightarrow> unit io" where
  "fill_row cfg pg row = block [
     goToNewTransaction pg,
     call pg EvalInstallGuard,
     try_catch (call pg (WaitForSelector FORM_merchantAccount 30000))
       (\<lambda>_. block [sleep 1500, call pg (WaitForSelector FORM_merchantAccount 30000)]),
     io_bind (issue (perform pg) (WaitForSelector FORM_amount 30000)) (\<lambda>p1.
     io_bind (issue (perform pg) (WaitForSelector FORM_orderId 30000)) (\<lambda>p2.
     io_bind (issue (perform pg) (WaitForSelector FORM_cardNumber 30000)) (\<lambda>p3.
       await_unit (promise_all [pcatch p1 (\<lambda>_. ()), pcatch p2 (\<lambda>_. ()), pcatch p3 (\<lambda>_. ())])))),
     sleep 400,
     if_then (formValues_merchantAccount row \<noteq> []) (block [
       type_into pg FORM_merchantAccount (formValues_merchantAccount row) 25,
       sleep 250,
       ignoring (call pg (Press ''Tab''))]),
     if_then (formValues_amount row \<noteq> [])
       (type_into pg FORM_amount (formValues_amount row) 10),
     if_then (formValues_orderId row \<noteq> [])
       (type_into pg FORM_orderId (formValues_orderId row) 10),
     if_then (formValues_customerFirstName row \<noteq> [])
       (type_into pg FORM_customerFirstName (formValues_customerFirstName row) 10),
     type_into pg FORM_cardholderName (formValues_cardholderName cfg) 10,
     fill_cardNumber pg row,
     if_then (formValues_expirationDate row \<noteq> [])
       (type_into pg FORM_expirationDate (formValues_expirationDate row) 10),
     if_then (formValues_cvv row \<noteq> [])
       (type_into pg FORM_cvv (formValues_cvv row) 10),
     type_into pg FORM_billingPostalCode (formValues_billingPostalCode cfg) 10,
     ignoring (type_into pg FORM_billingFirstName
       (if BRAND cfg = ''agoda'' then ''Agoda Company Pte Ltd.'' else ''Booking.com'') 10),
     if_then (BRAND cfg = ''agoda'') (block [
       ignoring (type_into pg FORM_billingStreet ''155 E. Boardwalk #490'' 10),
       ignoring (type_into pg FORM_billingRegion ''Fort Collins, CO'' 10)]),
     ignoring (call pg (EvalClear FORM_billingCompany)),
     if_then (formValues_billingCountryName \<noteq> [])
       (try_catch (call pg (Select FORM_billingCountryName formValues_billingCountryName))
          (\<lambda>_. call pg (EvalSetValue FORM_billingCountryName formValues_billingCountryName))),
     tick_skipPremiumFraud pg]"

text \<open>
  Lines 552 to 559: the first poll, and after a failure a sleep and the second poll,
  whose failure is replaced by the empty string.
\<close>

definition capture_status :: "config \<Rightarrow> env \<Rightarrow> string io" where
  "capture_status cfg pg =
     try_catch (waitForStatusText pg (STATUS_WAIT_TIMEOUT_MS cfg))
       (\<lambda>_. seq (sleep 2000)
          (try_catch (waitForStatusText pg (STATUS_WAIT_TIMEOUT_MS cfg)) (\<lambda>_. ret [])))"

text \<open>The file after a write that went through; without a file, reading it throws.\<close>

definition store_status :: "nat \<Rightarrow> string \<Rightarrow> unit io" where
  "store_status rowIndexZeroBased statusValue w =
     (case workbook w of
        None \<Rightarrow> (Throws (StoreError ''Input file not found''), w)
      | Some ws \<Rightarrow>
          (Returns (), w\<lparr>workbook := Some (write_status ws rowIndexZeroBased statusValue)\<rparr>))"

text \<open>
  \<open>writeStatusToExcel\<close> (lines 133 to 163). The action \<open>WriteStatus\<close> is the access to
  the file by \<^verbatim>\<open>xlsx.readFile\<close> and \<^verbatim>\<open>xlsx.writeFile\<close>, which the environment can let
  fail; when it goes through, the file holds the sheet that lines 139 to 161 compute.
\<close>

definition writeStatusToExcel :: "env \<Rightarrow> nat \<Rightarrow> string \<Rightarrow> unit io" where
  "writeStatusToExcel pg rowIndexZeroBased statusValue =
     seq (call pg (WriteStatus rowIndexZeroBased statusValue))
       (store_status rowIndexZeroBased statusValue)"

text \<open>Lines 532 to 545: pause in review mode, submit otherwise.\<close>

definition submit_or_pause :: "config \<Rightarrow> env \<Rightarrow> unit io" where
  "submit_or_pause cfg pg =
     (if REVIEW_MODE cfg then suspend
      else block [
        sleep 2000,
        call pg EvalSubmit,
        io_bind (issue (perform pg) (WaitForNavigation 60000)) (\<lambda>p1.
        io_bind (issue (perform pg) (WaitForSelector ''body.transactions_show'' 60000)) (\<lambda>p2.
          await (promise_race [pcatch p1 (\<lambda>_. ()), pcatch p2 (\<lambda>_. ())]))),
        io_bind (waitForAnySelector pg SELECTORS_submitPage 30000) await])"

text \<open>Lines 569 to 575: back to the transactions list for the next iteration.\<close>

definition back_to_transactions :: "env \<Rightarrow> unit io" where
  "back_to_transactions pg = block [
     io_bind (waitForAnySelector pg SELECTORS_transactionsLink 15000) await,
     click_or pg (SELECTORS_transactionsLink ! 0) (SELECTORS_transactionsLink ! 1),
     io_bind (issue (perform pg) (WaitForNavigation 30000)) (\<lambda>p1.
     io_bind (waitForAnySelector pg SELECTORS_newTransactionLink 30000) (\<lambda>p2.
       await (promise_race [pcatch p1 (\<lambda>_. ()), pcatch p2 (\<lambda>_. ())])))]"

text \<open>Lines 547 to 576: result capture, write-back and the way back.\<close>

definition capture_and_return :: "config \<Rightarrow> env \<Rightarrow> nat \<Rightarrow> unit io" where
  "capture_and_return cfg pg idx =
     if_then (\<not> REVIEW_MODE cfg) (block [
       ignoring (io_bind (waitForAnySelector pg SELECTORS_submitPage (STATUS_WAIT_TIMEOUT_MS cfg)) await),
       io_bind (capture_status cfg pg) (\<lambda>statusText.
         ignoring (writeStatusToExcel pg idx statusText)),
       back_to_transactions pg])"

text \<open>One iteration of the loop over the rows; \<^verbatim>\<open>continue\<close> returns from it.\<close>

definition process_row :: "config \<Rightarrow> env \<Rightarrow> nat \<Rightarrow> row \<Rightarrow> unit io" where
  "process_row cfg pg idx row =
     (if statusCell row \<noteq> [] then ret ()
      else if length (cvvDigitsEarly row) < 3 then ret ()
      else block [
        fill_row cfg pg row,
        submit_or_pause cfg pg,
        capture_and_return cfg pg idx])"

text \<open>\<^verbatim>\<open>for (let idx = 0; idx < rows.length; idx += 1)\<close>, from \<open>idx\<close> on.\<close>

fun rows_loop :: "config \<Rightarrow> env \<Rightarrow> nat \<Rightarrow> row list \<Rightarrow> unit io" where
  "rows_loop cfg pg idx [] = ret ()"
| "rows_loop cfg pg idx (row # rest) =
     seq (process_row cfg pg idx row) (rows_loop cfg pg (Suc idx) rest)"

text \<open>
  The body of the \<^verbatim>\<open>try\<close> in \<open>main\<close>. \<open>sheet\<close> is what \<open>readAllRowsFromExcel\<close>
  gives on the input file: the rows, or the error it throws. Nothing writes to the file
  before it is read, so for a run from world \<open>w\<close> it is
  \<open>readAllRowsFromExcel (workbook w)\<close>.
\<close>

definition main_try :: "config \<Rightarrow> env \<Rightarrow> error + row list \<Rightarrow> unit io" where
  "main_try cfg pg sheet =
     seq (login cfg pg)
       (case sheet of
          Inl e \<Rightarrow> throw e
        | Inr rows \<Rightarrow> rows_loop cfg pg 0 rows)"

text \<open>
  How the process ends: \<^verbatim>\<open>process.exit(code)\<close>, or never (suspended at an await).
\<close>

datatype ending = Exit nat | NoExit

text \<open>
  \<open>main\<close>, with the handler of \<^verbatim>\<open>main().catch\<close>: a failure before the \<^verbatim>\<open>try\<close> exits
  with 1; inside it, \<open>exitCode\<close> is 1 after a caught error and 0 otherwise, and the
  \<^verbatim>\<open>finally\<close> closes the browser, ignoring a failure, and exits.
\<close>

definition main :: "config \<Rightarrow> env \<Rightarrow> error + row list \<Rightarrow> world \<Rightarrow> ending \<times> world" where
  "main cfg pg sheet w0 =
     (case block [call pg ImportPuppeteer, call pg Launch] w0 of
        (Throws e, w1) \<Rightarrow> (Exit 1, w1)
      | (Suspends, w1) \<Rightarrow> (NoExit, w1)
      | (Returns u, w1) \<Rightarrow>
          (case main_try cfg pg sheet w1 of
             (Suspends, w2) \<Rightarrow> (NoExit, w2)
           | (Throws e, w2) \<Rightarrow>
               (case ignoring (call pg BrowserClose) w2 of
                  (Suspends, w3) \<Rightarrow> (NoExit, w3)
                | (r, w3) \<Rightarrow> (Exit 1, w3))
           | (Returns u, w2) \<Rightarrow>
               (case ignoring (call pg BrowserClose) w2 of
                  (Suspends, w3) \<Rightarrow> (NoExit, w3)
                | (r, w3) \<Rightarrow> (Exit 0, w3))))"

section \<open>Vocabulary of the properties\<close>

text \<open>
  \<open>emits P m\<close>: whatever \<open>m\<close> does, it only appends actions to the trace, and each of
  them satisfies \<open>P\<close>.
\<close>

definition emits :: "(action \<Rightarrow> bool) \<Rightarrow> 'a io \<Rightarrow> bool" where
  "emits P m \<longleftrightarrow> (\<forall>w r w'. m w = (r, w') \<longrightarrow> (\<exists>as. trace w' = trace w @ as \<and> list_all P as))"

text \<open>The actions of submission, result polling and write-back.\<close>

definition quiet :: "action \<Rightarrow> bool" where
  "quiet a =
     (case a of EvalSubmit \<Rightarrow> False | EvalStatusText \<Rightarrow> False | WriteStatus i v \<Rightarrow> False
      | _ \<Rightarrow> True)"

text \<open>The submissions, result polls and write-backs of a trace, in order.\<close>

definition loud :: "action list \<Rightarrow> action list" where
  "loud as = filter (\<lambda>a. \<not> quiet a) as"

text \<open>An action is no write-back, or it writes to row \<open>idx\<close>.\<close>

definition writes_only :: "nat \<Rightarrow> action \<Rightarrow> bool" where
  "writes_only idx a = (case a of WriteStatus j v \<Rightarrow> j = idx | _ \<Rightarrow> True)"

text \<open>
  An action of the loop from \<open>idx\<close> on is no write-back, or it writes to a row of the
  loop whose status cell is empty.
\<close>

definition writes_pending :: "nat \<Rightarrow> row list \<Rightarrow> action \<Rightarrow> bool" where
  "writes_pending idx rows a =
     (case a of
        WriteStatus j v \<Rightarrow> idx \<le> j \<and> j < idx + length rows \<and> statusCell (rows ! (j - idx)) = []
      | _ \<Rightarrow> True)"

section \<open>The contract of the page waits\<close>

text \<open>The wait that \<open>raceStages\<close> issues for a stage of one of the two supported types.\<close>

definition stage_action :: "nat \<Rightarrow> stage \<Rightarrow> action" where
  "stage_action timeoutMs st =
     (if stage_type st = ''selectors'' then WaitForFunctionAny (stage_selectors st) timeoutMs
      else WaitForFunctionText (stage_selector st) (stage_text st) timeoutMs)"

definition supported :: "stage \<Rightarrow> bool" where
  "supported st \<longleftrightarrow> stage_type st = ''selectors'' \<or> stage_type st = ''text''"

text \<open>
  What Puppeteer's \<^verbatim>\<open>page.waitForFunction\<close> answers for a positive timeout, given the
  time (in milliseconds after the call) from which the awaited condition holds, if it ever
  does: it resolves at that time when it lies before the deadline, and rejects at the
  deadline with its \<open>TimeoutError\<close>, whose message names the timeout, otherwise.
\<close>

definition wait_answer :: "nat option \<Rightarrow> nat \<Rightarrow> nat \<times> (error + unit)" where
  "wait_answer holds_at timeoutMs =
     (case holds_at of
        Some t \<Rightarrow>
          if t < timeoutMs then (t, Inr ()) else (timeoutMs, Inl (TimeoutError timeoutMs))
      | None \<Rightarrow> (timeoutMs, Inl (TimeoutError timeoutMs)))"

text \<open>
  The page answers the waits of the given stages as \<open>wait_answer\<close> says, where
  \<open>holds_at st\<close> is the time from which some alternative of stage \<open>st\<close> is satisfied.
\<close>

definition honours :: "env \<Rightarrow> (stage \<Rightarrow> nat option) \<Rightarrow> stage list \<Rightarrow> nat \<Rightarrow> bool" where
  "honours pg holds_at stages timeoutMs \<longleftrightarrow>
     (\<forall>st \<in> set stages. \<forall>tr.
        perform pg tr (stage_action timeoutMs st) = wait_answer (holds_at st) timeoutMs)"

text \<open>The promise \<open>raceStages\<close> holds for a stage on such a page.\<close>

definition stage_settles :: "(stage \<Rightarrow> nat option) \<Rightarrow> nat \<Rightarrow> stage \<Rightarrow> string promise" where
  "stage_settles holds_at timeoutMs st =
     (case holds_at st of
        Some t \<Rightarrow>
          if t < timeoutMs then Later t (Inr (stage_name st))
          else Later timeoutMs (Inl (TimeoutError timeoutMs))
      | None \<Rightarrow> Later timeoutMs (Inl (TimeoutError timeoutMs)))"

section \<open>Concrete inputs\<close>

text \<open>The booking brand in auto-submit mode, with the result wait set to one second.\<close>

definition cfg_booking :: config where
  "cfg_booking = \<lparr>argv = [''node'', ''server.js'', ''--booking''],
     env_LOGIN_PAGE_LOAD_TIMEOUT_MS = None, env_POST_LOGIN_WAIT_TIMEOUT_MS = None,
     env_OTP_WAIT_TIMEOUT_MS = None, env_STATUS_WAIT_TIMEOUT_MS = Some 1000\<rparr>"

text \<open>The agoda brand with no mode flag.\<close>

definition cfg_agoda :: config where
  "cfg_agoda = \<lparr>argv = [''node'', ''server.js'', ''--agoda''],
     env_LOGIN_PAGE_LOAD_TIMEOUT_MS = None, env_POST_LOGIN_WAIT_TIMEOUT_MS = None,
     env_OTP_WAIT_TIMEOUT_MS = None, env_STATUS_WAIT_TIMEOUT_MS = None\<rparr>"

text \<open>The record of the end-to-end scenario.\<close>

definition row_demo :: row where
  "row_demo = [(''MAIDS'', ''acct_1''), (''Amount'', ''10.00''), (''Reservation ID'', ''R100''),
     (''Card first 4'', ''4111''), (''Card last 12'', ''111111111111''), (''CVV'', ''123''),
     (''Expiry'', ''12/2030'')]"

text \<open>The input file with that record on its lines 1 and 2 and no status column.\<close>

definition sheet_demo :: worksheet where
  "sheet_demo = \<lparr>range_s_r = 0, range_s_c = 0, range_e_r = 2, range_e_c = 6,
     cells = map_of [
       ((0, 0), ''MAIDS''), ((0, 1), ''Amount''), ((0, 2), ''Reservation ID''),
       ((0, 3), ''Card first 4''), ((0, 4), ''Card last 12''), ((0, 5), ''CVV''),
       ((0, 6), ''Expiry''),
       ((1, 0), ''acct_1''), ((1, 1), ''10.00''), ((1, 2), ''R100''), ((1, 3), ''4111''),
       ((1, 4), ''111111111111''), ((1, 5), ''123''), ((1, 6), ''12/2030''),
       ((2, 0), ''acct_1''), ((2, 1), ''10.00''), ((2, 2), ''R100''), ((2, 3), ''4111''),
       ((2, 4), ''111111111111''), ((2, 5), ''123''), ((2, 6), ''12/2030'')]\<rparr>"

text \<open>The world at the start of a run on that file.\<close>

definition world0 :: world where
  "world0 = \<lparr>now = 0, trace = [], workbook = Some sheet_demo\<rparr>"

text \<open>
  A page on which every call succeeds at once, no box is ticked and every text that is
  read back, the transaction status included, is empty.
\<close>

definition env_blank :: env where
  "env_blank = \<lparr>perform = (\<lambda>tr a. (0, Inr ())), read_text = (\<lambda>tr a. (0, Inr [])),
     read_flag = (\<lambda>tr a. (0, Inr False))\<rparr>"

text \<open>
  A page on which the transactions link never shows up within the twenty seconds of
  \<open>goToNewTransaction\<close>; every other call succeeds at once.
\<close>

definition env_stuck :: env where
  "env_stuck = \<lparr>perform = (\<lambda>tr a.
       if a = WaitForFunctionAny SELECTORS_transactionsLink 20000
       then (20000, Inl (TimeoutError 20000)) else (0, Inr ())),
     read_text = (\<lambda>tr a. (0, Inr [])),
     read_flag = (\<lambda>tr a. (0, Inr False))\<rparr>"


text \<open>A page on which no awaited condition ever becomes true.\<close>

definition env_never :: env where
  "env_never = \<lparr>perform = (\<lambda>tr a.
       case a of
         WaitForFunctionAny sels t \<Rightarrow> (t, Inl (TimeoutError t))
       | WaitForFunctionText sel s t \<Rightarrow> (t, Inl (TimeoutError t))
       | _ \<Rightarrow> (0, Inr ())),
     read_text = (\<lambda>tr a. (0, Inr [])),
     read_flag = (\<lambda>tr a. (0, Inr False))\<rparr>"

text \<open>
  A page on which the text of stage \<open>B\<close> appears after half a second and no other awaited
  condition ever becomes true.
\<close>

definition env_B_first :: env where
  "env_B_first = \<lparr>perform = (\<lambda>tr a.
       case a of
         WaitForFunctionAny sels t \<Rightarrow> (t, Inl (TimeoutError t))
       | WaitForFunctionText sel s t \<Rightarrow>
           if sel = ''#b'' \<and> s = ''done'' \<and> 500 < t then (500, Inr ())
           else (t, Inl (TimeoutError t))
       | _ \<Rightarrow> (0, Inr ())),
     read_text = (\<lambda>tr a. (0, Inr [])),
     read_flag = (\<lambda>tr a. (0, Inr False))\<rparr>"

text \<open>Two stages, and a third of a type \<open>raceStages\<close> does not know.\<close>

definition stage_A :: stage where
  "stage_A = \<lparr>stage_name = ''A'', stage_type = ''selectors'', stage_selectors = [''#a''],
     stage_selector = [], stage_text = []\<rparr>"

definition stage_B :: stage where
  "stage_B = \<lparr>stage_name = ''B'', stage_type = ''text'', stage_selectors = [],
     stage_selector = ''#b'', stage_text = ''done''\<rparr>"

text \<open>The text of a cell of the input file, as the world holds it.\<close>

definition stored :: "world \<Rightarrow> nat \<times> nat \<Rightarrow> string option" where
  "stored w addr = (case workbook w of None \<Rightarrow> None | Some ws \<Rightarrow> cells ws addr)"

text \<open>
  An input file whose line 1 is blank: record \<open>R100\<close>, already \<open>Approved\<close>, stands on
  line 2 and record \<open>R200\<close>, without status, on line 3.
\<close>

definition sheet_blank_line :: worksheet where
  "sheet_blank_line = \<lparr>range_s_r = 0, range_s_c = 0, range_e_r = 3, range_e_c = 2,
     cells = map_of [
       ((0, 0), ''Reservation ID''), ((0, 1), ''CVV''), ((0, 2), ''STATUS''),
       ((2, 0), ''R100''), ((2, 1), ''123''), ((2, 2), ''Approved''),
       ((3, 0), ''R200''), ((3, 1), ''456'')]\<rparr>"

definition world_blank_line :: world where
  "world_blank_line = \<lparr>now = 0, trace = [], workbook = Some sheet_blank_line\<rparr>"

text \<open>The two records of that file, as \<open>readAllRowsFromExcel\<close> yields them.\<close>

definition row_R100 :: row where
  "row_R100 = [(''Reservation ID'', ''R100''), (''CVV'', ''123''), (''STATUS'', ''Approved'')]"

definition row_R200 :: row where
  "row_R200 = [(''Reservation ID'', ''R200''), (''CVV'', ''456''), (''STATUS'', '''')]"

text \<open>
  A page on which every call succeeds at once, no box is ticked and every text that is
  read, the transaction status included, is \<open>Settled\<close>.
\<close>

definition env_settled :: env where
  "env_settled = \<lparr>perform = (\<lambda>tr a. (0, Inr ())), read_text = (\<lambda>tr a. (0, Inr ''Settled'')),
     read_flag = (\<lambda>tr a. (0, Inr False))\<rparr>"

section \<open>Lemmas on the trace\<close>

lemma emitsI:
  "(\<And>w r w'. m w = (r, w') \<Longrightarrow> \<exists>as. trace w' = trace w @ as \<and> list_all P as) \<Longrightarrow> emits P m"
  by (simp add: emits_def)

lemma emitsD:
  "emits P m \<Longrightarrow> m w = (r, w') \<Longrightarrow> \<exists>as. trace w' = trace w @ as \<and> list_all P as"
  by (simp add: emits_def)

lemma emits_mono: "emits P m \<Longrightarrow> (\<And>a. P a \<Longrightarrow> Q a) \<Longrightarrow> emits Q m"
  unfolding emits_def list_all_iff by blast

lemma emits_ret: "emits P (ret x)"
  by (simp add: emits_def ret_def)

lemma emits_throw: "emits P (throw e)"
  by (simp add: emits_def throw_def)

lemma emits_await: "emits P (await p)"
  by (auto simp: emits_def await_def split: promise.splits sum.splits)

lemma emits_suspend: "emits P suspend"
  by (simp add: suspend_def emits_await)

lemma emits_sleep: "emits P (sleep ms)"
  by (simp add: sleep_def emits_await)

lemma emits_store_status: "emits P (store_status idx v)"
  by (auto simp: emits_def store_status_def split: option.splits)

lemma emits_issue: "P a \<Longrightarrow> emits P (issue oracle a)"
  by (auto simp: emits_def issue_def split: prod.splits)

lemma emits_io_bind:
  assumes "emits P m" and "\<And>x. emits P (f x)"
  shows "emits P (io_bind m f)"
proof (rule emitsI)
  fix w r w'
  assume run: "io_bind m f w = (r, w')"
  obtain r1 w1 where m: "m w = (r1, w1)" by (cases "m w")
  from emitsD [OF assms(1) m] obtain as where as: "trace w1 = trace w @ as" "list_all P as"
    by blast
  show "\<exists>as. trace w' = trace w @ as \<and> list_all P as"
  proof (cases r1)
    case (Returns x)
    with run m have "f x w1 = (r, w')" by (simp add: io_bind_def)
    from emitsD [OF assms(2) this] obtain bs where "trace w' = trace w1 @ bs" "list_all P bs"
      by blast
    with as have "trace w' = trace w @ (as @ bs) \<and> list_all P (as @ bs)" by simp
    then show ?thesis by blast
  next
    case (Throws e)
    with run m as show ?thesis by (auto simp: io_bind_def)
  next
    case Suspends
    with run m as show ?thesis by (auto simp: io_bind_def)
  qed
qed

lemma emits_try_catch:
  assumes "emits P m" and "\<And>e. emits P (h e)"
  shows "emits P (try_catch m h)"
proof (rule emitsI)
  fix w r w'
  assume run: "try_catch m h w = (r, w')"
  obtain r1 w1 where m: "m w = (r1, w1)" by (cases "m w")
  from emitsD [OF assms(1) m] obtain as where as: "trace w1 = trace w @ as" "list_all P as"
    by blast
  show "\<exists>as. trace w' = trace w @ as \<and> list_all P as"
  proof (cases r1)
    case (Throws e)
    with run m have "h e w1 = (r, w')" by (simp add: try_catch_def)
    from emitsD [OF assms(2) this] obtain bs where "trace w' = trace w1 @ bs" "list_all P bs"
      by blast
    with as have "trace w' = trace w @ (as @ bs) \<and> list_all P (as @ bs)" by simp
    then show ?thesis by blast
  next
    case (Returns x)
    with run m as show ?thesis by (auto simp: try_catch_def)
  next
    case Suspends
    with run m as show ?thesis by (auto simp: try_catch_def)
  qed
qed

lemma emits_seq: "emits P m \<Longrightarrow> emits P n \<Longrightarrow> emits P (seq m n)"
  by (simp add: seq_def emits_io_bind)

lemma emits_block_Nil: "emits P (block [])"
  by (simp add: emits_ret)

lemma emits_block_Cons: "emits P m \<Longrightarrow> emits P (block ms) \<Longrightarrow> emits P (block (m # ms))"
  by (simp add: emits_seq)

lemma emits_ignoring: "emits P m \<Longrightarrow> emits P (ignoring m)"
  by (simp add: ignoring_def emits_try_catch emits_ret)

lemma emits_if_then: "(b \<Longrightarrow> emits P m) \<Longrightarrow> emits P (if_then b m)"
  by (simp add: if_then_def emits_ret)

lemma emits_if: "(b \<Longrightarrow> emits P m) \<Longrightarrow> (\<not> b \<Longrightarrow> emits P n) \<Longrightarrow> emits P (if b then m else n)"
  by simp

lemma emits_call: "P a \<Longrightarrow> emits P (call pg a)"
  by (simp add: call_def emits_io_bind emits_issue emits_await)

lemma emits_call_text: "P a \<Longrightarrow> emits P (call_text pg a)"
  by (simp add: call_text_def emits_io_bind emits_issue emits_await)

lemma emits_call_flag: "P a \<Longrightarrow> emits P (call_flag pg a)"
  by (simp add: call_flag_def emits_io_bind emits_issue emits_await)

lemma emits_await_unit: "emits P (await_unit p)"
  by (simp add: await_unit_def emits_io_bind emits_await emits_ret)

lemma emits_waitForAnySelector:
  "P (WaitForFunctionAny sels t) \<Longrightarrow> emits P (waitForAnySelector pg sels t)"
  by (simp add: waitForAnySelector_def emits_issue)

lemma emits_waitForText:
  "P (WaitForFunctionText sel s t) \<Longrightarrow> emits P (waitForText pg sel s t)"
  by (simp add: waitForText_def emits_issue)

lemmas emits_intros = emits_ret emits_throw emits_await emits_suspend emits_sleep emits_issue
  emits_store_status
  emits_io_bind emits_try_catch emits_seq emits_block_Nil emits_block_Cons emits_ignoring
  emits_if_then emits_if emits_call emits_call_text emits_call_flag emits_await_unit
  emits_waitForAnySelector emits_waitForText

lemma emits_goToNewTransaction: "emits quiet (goToNewTransaction pg)"
  unfolding goToNewTransaction_def click_or_def
  by (intro emits_intros) (simp_all add: quiet_def)

lemma emits_fill_row: "emits quiet (fill_row cfg pg row)"
  unfolding fill_row_def type_into_def fill_cardNumber_def tick_skipPremiumFraud_def Let_def
  by (intro emits_intros emits_goToNewTransaction) (simp_all add: quiet_def)

lemma emits_map_io: "(\<And>x. x \<in> set xs \<Longrightarrow> emits P (f x)) \<Longrightarrow> emits P (map_io f xs)"
  by (induction xs) (auto intro!: emits_intros)

lemma emits_stage_promise:
  "(\<And>a. quiet a \<Longrightarrow> P a) \<Longrightarrow> emits P (stage_promise pg t st)"
  unfolding stage_promise_def
  by (intro emits_intros) (simp_all add: quiet_def)

lemma emits_raceStages: "(\<And>a. quiet a \<Longrightarrow> P a) \<Longrightarrow> emits P (raceStages pg stages t)"
  unfolding raceStages_def
  by (intro emits_intros emits_map_io emits_stage_promise)

lemma emits_login: "emits quiet (login cfg pg)"
  unfolding login_def
  by (intro emits_intros emits_raceStages) (simp_all add: quiet_def)

lemma emits_waitForStatusText_loop:
  assumes "P EvalStatusText"
  shows "emits P (waitForStatusText_loop pg timeoutMs start lastSeen)"
proof (rule emitsI)
  fix w r w'
  assume "waitForStatusText_loop pg timeoutMs start lastSeen w = (r, w')"
  then show "\<exists>as. trace w' = trace w @ as \<and> list_all P as"
  proof (induction pg timeoutMs start lastSeen w rule: waitForStatusText_loop.induct)
    case (1 pg timeoutMs start lastSeen w)
    obtain r1 w1 where c: "call_text pg EvalStatusText w = (r1, w1)"
      by (cases "call_text pg EvalStatusText w")
    from emitsD [OF emits_call_text [of P, OF assms] c]
    obtain as where as: "trace w1 = trace w @ as" "list_all P as" by blast
    obtain u w2 where s: "sleep 1000 w1 = (u, w2)" by (cases "sleep 1000 w1")
    from emitsD [OF emits_sleep s] obtain bs where bs: "trace w2 = trace w1 @ bs" "list_all P bs"
      by blast
    have done_here: "\<exists>cs. trace w1 = trace w @ cs \<and> list_all P cs"
      using as by blast
    have via: "\<exists>cs. trace w' = trace w @ cs \<and> list_all P cs"
      if "\<exists>ds. trace w' = trace w2 @ ds \<and> list_all P ds"
    proof -
      from that obtain ds where "trace w' = trace w2 @ ds" "list_all P ds" by blast
      with as bs have "trace w' = trace w @ (as @ bs @ ds) \<and> list_all P (as @ bs @ ds)" by simp
      then show ?thesis by blast
    qed
    show ?case
    proof (cases r1)
      case (Returns tx)
      show ?thesis
      proof (cases "tx \<noteq> [] \<or> timeoutMs < now w1 - start")
        case True
        with "1.prems" c Returns have "w' = w1"
          by (subst (asm) waitForStatusText_loop.simps) (auto split: if_splits)
        with done_here show ?thesis by simp
      next
        case False
        with "1.prems" c Returns s
        have rec: "waitForStatusText_loop pg timeoutMs start tx w2 = (r, w')"
          by (subst (asm) waitForStatusText_loop.simps) simp
        from False have "\<not> tx \<noteq> []" "\<not> timeoutMs < now w1 - start" by simp_all
        from "1.IH"(1) [OF c [symmetric] Returns this s [symmetric] rec] via show ?thesis
          by simp
      qed
    next
      case (Throws e)
      show ?thesis
      proof (cases "timeoutMs < now w1 - start")
        case True
        with "1.prems" c Throws have "w' = w1"
          by (subst (asm) waitForStatusText_loop.simps) (auto split: if_splits)
        with done_here show ?thesis by simp
      next
        case False
        with "1.prems" c Throws s
        have rec: "waitForStatusText_loop pg timeoutMs start lastSeen w2 = (r, w')"
          by (subst (asm) waitForStatusText_loop.simps) simp
        from "1.IH"(2) [OF c [symmetric] Throws False s [symmetric] rec] via show ?thesis
          by simp
      qed
    next
      case Suspends
      with "1.prems" c have "w' = w1"
        by (subst (asm) waitForStatusText_loop.simps) auto
      with done_here show ?thesis by simp
    qed
  qed
qed

lemma emits_waitForStatusText:
  assumes "P EvalStatusText"
  shows "emits P (waitForStatusText pg timeoutMs)"
proof (rule emitsI)
  fix w r w'
  assume "waitForStatusText pg timeoutMs w = (r, w')"
  then have "waitForStatusText_loop pg timeoutMs (now w) [] w = (r, w')"
    by (simp add: waitForStatusText_def)
  from emitsD [OF emits_waitForStatusText_loop [of P, OF assms] this]
  show "\<exists>as. trace w' = trace w @ as \<and> list_all P as" .
qed

lemma emits_capture_status: "P EvalStatusText \<Longrightarrow> emits P (capture_status cfg pg)"
  unfolding capture_status_def
  by (intro emits_intros emits_waitForStatusText)

lemma quiet_writes_only: "quiet a \<Longrightarrow> writes_only idx a"
  by (cases a) (simp_all add: quiet_def writes_only_def)

lemma emits_submit_or_pause: "emits (writes_only idx) (submit_or_pause cfg pg)"
  unfolding submit_or_pause_def
  by (intro emits_intros) (simp_all add: writes_only_def)

lemma emits_capture_and_return: "emits (writes_only idx) (capture_and_return cfg pg idx)"
  unfolding capture_and_return_def back_to_transactions_def click_or_def writeStatusToExcel_def
  by (intro emits_intros emits_capture_status) (simp_all add: writes_only_def)

lemma emits_process_row:
  "emits (\<lambda>a. writes_only idx a \<and> (statusCell row \<noteq> [] \<longrightarrow> quiet a)) (process_row cfg pg idx row)"
proof (cases "statusCell row \<noteq> []")
  case True
  then show ?thesis by (simp add: process_row_def emits_ret)
next
  case False
  have "emits (writes_only idx) (process_row cfg pg idx row)"
    unfolding process_row_def
    by (intro emits_intros emits_submit_or_pause emits_capture_and_return
        emits_mono [OF emits_fill_row] quiet_writes_only)
  with False show ?thesis by (simp add: emits_def)
qed

lemma emits_rows_loop: "emits (writes_pending idx rows) (rows_loop cfg pg idx rows)"
proof (induction rows arbitrary: idx)
  case Nil
  show ?case by (simp add: emits_ret)
next
  case (Cons row rest)
  have head: "emits (writes_pending idx (row # rest)) (process_row cfg pg idx row)"
  proof (rule emits_mono [OF emits_process_row])
    fix a
    assume "writes_only idx a \<and> (statusCell row \<noteq> [] \<longrightarrow> quiet a)"
    then show "writes_pending idx (row # rest) a"
      by (cases a) (auto simp: writes_only_def writes_pending_def quiet_def)
  qed
  have tail: "emits (writes_pending idx (row # rest)) (rows_loop cfg pg (Suc idx) rest)"
  proof (rule emits_mono [OF Cons.IH [of "Suc idx"]])
    fix a
    assume "writes_pending (Suc idx) rest a"
    then show "writes_pending idx (row # rest) a"
      by (cases a) (auto simp: writes_pending_def Suc_diff_le)
  qed
  from head tail show ?case by (simp add: emits_seq)
qed

lemma emits_main_try:
  "emits (writes_pending 0 rows) (main_try cfg pg (Inr rows))"
  unfolding main_try_def
  apply (simp add: )
  apply (intro emits_intros emits_rows_loop)
  apply (rule emits_mono [OF emits_login])
  apply (case_tac a; simp add: quiet_def writes_pending_def)
  done

lemma emits_process_row_review:
  assumes "REVIEW_MODE cfg"
  shows "emits quiet (process_row cfg pg idx row)"
  unfolding process_row_def submit_or_pause_def capture_and_return_def
  using assms by (intro emits_intros emits_fill_row) simp_all

lemma emits_rows_loop_review:
  assumes "REVIEW_MODE cfg"
  shows "emits quiet (rows_loop cfg pg idx rows)"
  by (induction rows arbitrary: idx)
    (simp_all add: emits_ret emits_seq emits_process_row_review [OF assms])

lemma emits_main_try_review:
  assumes "REVIEW_MODE cfg"
  shows "emits quiet (main_try cfg pg sheet)"
  unfolding main_try_def
  by (cases sheet) (auto intro!: emits_intros emits_login emits_rows_loop_review [OF assms])

text \<open>The trace of a whole run.\<close>

lemma main_trace:
  assumes "\<And>a. quiet a \<Longrightarrow> P a" and "emits P (main_try cfg pg sheet)"
  shows "\<exists>as. trace (snd (main cfg pg sheet w0)) = trace w0 @ as \<and> list_all P as"
proof -
  have q: "P ImportPuppeteer" "P Launch" "P BrowserClose"
    by (simp_all add: assms(1) quiet_def)
  obtain r1 w1 where s1: "block [call pg ImportPuppeteer, call pg Launch] w0 = (r1, w1)"
    by (cases "block [call pg ImportPuppeteer, call pg Launch] w0")
  have "emits P (block [call pg ImportPuppeteer, call pg Launch])"
    by (intro emits_intros q)
  from emitsD [OF this s1] obtain as where as: "trace w1 = trace w0 @ as" "list_all P as"
    by blast
  obtain r2 w2 where s2: "main_try cfg pg sheet w1 = (r2, w2)"
    by (cases "main_try cfg pg sheet w1")
  from emitsD [OF assms(2) s2] obtain bs where bs: "trace w2 = trace w1 @ bs" "list_all P bs"
    by blast
  obtain r3 w3 where s3: "ignoring (call pg BrowserClose) w2 = (r3, w3)"
    by (cases "ignoring (call pg BrowserClose) w2")
  have "emits P (ignoring (call pg BrowserClose))"
    by (intro emits_intros q)
  from emitsD [OF this s3] obtain cs where cs: "trace w3 = trace w2 @ cs" "list_all P cs"
    by blast
  have "snd (main cfg pg sheet w0) \<in> {w1, w2, w3}"
    using s1 s2 s3 by (auto simp: main_def split: outcome.splits)
  moreover have "trace w2 = trace w0 @ (as @ bs) \<and> list_all P (as @ bs)"
    using as bs by simp
  moreover have "trace w3 = trace w0 @ (as @ bs @ cs) \<and> list_all P (as @ bs @ cs)"
    using as bs cs by simp
  ultimately show ?thesis using as by blast
qed

lemma trace_ignoring_call:
  "trace (snd (ignoring (call pg a) w)) = trace w @ [a] \<and> fst (ignoring (call pg a) w) = Returns ()"
  by (auto simp: ignoring_def try_catch_def call_def io_bind_def issue_def await_def ret_def
      split: prod.splits sum.splits)




section \<open>Lemmas on the loop, the card number and the text helpers\<close>

lemma rows_loop_stops:
  assumes "rows_loop cfg pg idx (take k rows) w = (Returns (), w3)"
      and "k < length rows"
      and "process_row cfg pg (idx + k) (rows ! k) w3 = (r, w4)"
      and "r \<noteq> Returns ()"
  shows "rows_loop cfg pg idx rows w = (r, w4)"
  using assms
proof (induction k arbitrary: idx rows w)
  case 0
  then obtain row rest where rows: "rows = row # rest" by (cases rows) auto
  with 0 show ?case
    by (cases r) (auto simp: seq_def io_bind_def ret_def)
next
  case (Suc k)
  then obtain row rest where rows: "rows = row # rest" by (cases rows) auto
  obtain r1 w1 where p: "process_row cfg pg idx row w = (r1, w1)"
    by (cases "process_row cfg pg idx row w")
  from Suc.prems(1) rows p have r1: "r1 = Returns ()"
    and rest: "rows_loop cfg pg (Suc idx) (take k rest) w1 = (Returns (), w3)"
    by (auto simp: seq_def io_bind_def split: outcome.splits)
  from Suc.prems rows have "k < length rest"
    and "process_row cfg pg (Suc idx + k) (rest ! k) w3 = (r, w4)"
    by simp_all
  from Suc.IH [OF rest this \<open>r \<noteq> Returns ()\<close>]
  have "rows_loop cfg pg (Suc idx) rest w1 = (r, w4)" .
  with rows p r1 show ?case
    by (simp add: seq_def io_bind_def)
qed

lemma pair_fstI: "fst p = a \<Longrightarrow> p = (a, snd p)"
  by (cases p) simp



lemmas text_defs = trim_def is_space_def is_digit_def strip_non_digits_def strip_spaces_def
  toLowerCase_def lower_char_def normalizeKey_def nullish_or_def


lemma rows_loop_goes_on:
  assumes "rows_loop cfg pg idx (take k rows) w = (Returns (), w3)"
      and "k < length rows"
      and "process_row cfg pg (idx + k) (rows ! k) w3 = (Returns (), w4)"
  shows "rows_loop cfg pg idx rows w = rows_loop cfg pg (Suc (idx + k)) (drop (Suc k) rows) w4"
  using assms
proof (induction k arbitrary: idx rows w)
  case 0
  then obtain row rest where rows: "rows = row # rest" by (cases rows) auto
  with 0 show ?case
    by (simp add: seq_def io_bind_def ret_def)
next
  case (Suc k)
  then obtain row rest where rows: "rows = row # rest" by (cases rows) auto
  obtain r1 w1 where p: "process_row cfg pg idx row w = (r1, w1)"
    by (cases "process_row cfg pg idx row w")
  from Suc.prems(1) rows p have r1: "r1 = Returns ()"
    and rest: "rows_loop cfg pg (Suc idx) (take k rest) w1 = (Returns (), w3)"
    by (auto simp: seq_def io_bind_def split: outcome.splits)
  from Suc.prems rows have "k < length rest"
    and "process_row cfg pg (Suc idx + k) (rest ! k) w3 = (Returns (), w4)"
    by simp_all
  from Suc.IH [OF rest this]
  have "rows_loop cfg pg (Suc idx) rest w1
      = rows_loop cfg pg (Suc (Suc idx + k)) (drop (Suc k) rest) w4" .
  with rows p r1 show ?case
    by (simp add: seq_def io_bind_def)
qed

lemma io_bind_Returns: "m w = (Returns x, w') \<Longrightarrow> io_bind m f w = f x w'"
  by (simp add: io_bind_def)

lemma seq_Returns: "m w = (Returns x, w') \<Longrightarrow> seq m n w = n w'"
  by (simp add: seq_def io_bind_def)

lemma seq_ret_unit: "seq m (ret ()) w = (m w :: unit outcome \<times> world)"
  by (cases "m w"; cases "fst (m w)") (auto simp: seq_def io_bind_def ret_def)

lemma trace_ignoring_write:
  "trace (snd (ignoring (writeStatusToExcel pg idx v) w)) = trace w @ [WriteStatus idx v] \<and>
   fst (ignoring (writeStatusToExcel pg idx v) w) = Returns ()"
  by (auto simp: ignoring_def try_catch_def writeStatusToExcel_def seq_def store_status_def
      call_def io_bind_def issue_def await_def ret_def
      split: prod.splits sum.splits option.splits)

section \<open>Lemmas on the race\<close>

lemma earliest_mem: "earliest ps = Some (d, r) \<Longrightarrow> \<exists>j < length ps. ps ! j = Later d r"
proof (induction ps arbitrary: d r)
  case Nil
  then show ?case by simp
next
  case (Cons p ps)
  show ?case
  proof (cases p)
    case (Later d0 r0)
    show ?thesis
    proof (cases "earliest ps")
      case None
      with Cons.prems Later have "d = d0" "r = r0" by simp_all
      with Later show ?thesis by auto
    next
      case (Some dr)
      obtain d' r' where dr: "dr = (d', r')" by (cases dr)
      show ?thesis
      proof (cases "d' < d0")
        case True
        with Cons.prems Later Some dr have "earliest ps = Some (d, r)" by simp
        from Cons.IH [OF this] show ?thesis by auto
      next
        case False
        with Cons.prems Later Some dr have "d = d0" "r = r0" by simp_all
        with Later show ?thesis by auto
      qed
    qed
  next
    case (Settled r0)
    with Cons.prems have "earliest ps = Some (d, r)" by simp
    from Cons.IH [OF this] show ?thesis by auto
  next
    case Never
    with Cons.prems have "earliest ps = Some (d, r)" by simp
    from Cons.IH [OF this] show ?thesis by auto
  qed
qed

lemma earliest_at:
  assumes "i < length ps" and "ps ! i = Later t r"
      and "\<forall>j < length ps. \<forall>t' r'. ps ! j = Later t' r' \<longrightarrow> (if j < i then t < t' else t \<le> t')"
  shows "earliest ps = Some (t, r)"
  using assms
proof (induction ps arbitrary: i)
  case Nil
  then show ?case by simp
next
  case (Cons p ps)
  show ?case
  proof (cases i)
    case 0
    with Cons.prems have p: "p = Later t r" by simp
    show ?thesis
    proof (cases "earliest ps")
      case None
      with p show ?thesis by simp
    next
      case (Some dr)
      obtain d' r' where dr: "dr = (d', r')" by (cases dr)
      from earliest_mem [of ps d' r'] Some dr
      obtain j where j: "j < length ps" "ps ! j = Later d' r'" by auto
      with Cons.prems(3) [rule_format, of "Suc j" d' r'] 0 have "t \<le> d'"
        by simp
      with p Some dr show ?thesis by simp
    qed
  next
    case (Suc i')
    with Cons.prems have i': "i' < length ps" "ps ! i' = Later t r" by simp_all
    have "\<forall>j < length ps. \<forall>t' r'. ps ! j = Later t' r' \<longrightarrow> (if j < i' then t < t' else t \<le> t')"
    proof (intro allI impI)
      fix j t' r'
      assume "j < length ps" "ps ! j = Later t' r'"
      with Cons.prems(3) [rule_format, of "Suc j" t' r'] Suc
      show "if j < i' then t < t' else t \<le> t'" by simp
    qed
    from Cons.IH [OF i' this] have rest: "earliest ps = Some (t, r)" .
    show ?thesis
    proof (cases p)
      case (Later d0 r0)
      with Cons.prems(3) [rule_format, of 0 d0 r0] Suc have "t < d0" by simp
      with Later rest show ?thesis by simp
    next
      case (Settled r0)
      with rest show ?thesis by simp
    next
      case Never
      with rest show ?thesis by simp
    qed
  qed
qed

lemma first_settled_Later:
  "\<forall>p \<in> set ps. \<exists>d r. p = Later d r \<Longrightarrow> first_settled ps = None"
  by (induction ps) auto

lemma stage_settles_Later: "\<exists>d r. stage_settles holds_at timeoutMs st = Later d r"
  by (simp add: stage_settles_def split: option.splits)

lemma promise_race_settles:
  "promise_race (map (stage_settles holds_at timeoutMs) stages) =
     (case earliest (map (stage_settles holds_at timeoutMs) stages) of
        Some (d, r) \<Rightarrow> Later d r
      | None \<Rightarrow> Never)"
  using first_settled_Later [of "map (stage_settles holds_at timeoutMs) stages"]
  by (simp add: promise_race_def stage_settles_Later)

lemma stage_promise_honoured:
  assumes "supported st"
      and "\<And>tr. perform pg tr (stage_action timeoutMs st) = wait_answer (holds_at st) timeoutMs"
  shows "stage_promise pg timeoutMs st w =
           (Returns (stage_settles holds_at timeoutMs st),
            w\<lparr>trace := trace w @ [stage_action timeoutMs st]\<rparr>)"
  using assms(1) assms(2) [of "trace w"]
  by (auto simp: supported_def stage_promise_def stage_action_def stage_settles_def wait_answer_def
      waitForAnySelector_def waitForText_def issue_def io_bind_def ret_def pthen_def
      split: option.splits if_splits)

lemma map_io_stage_promise:
  assumes "\<forall>st \<in> set stages. supported st" and "honours pg holds_at stages timeoutMs"
  shows "map_io (stage_promise pg timeoutMs) stages w =
           (Returns (map (stage_settles holds_at timeoutMs) stages),
            w\<lparr>trace := trace w @ map (stage_action timeoutMs) stages\<rparr>)"
  using assms
proof (induction stages arbitrary: w)
  case Nil
  show ?case by (simp add: ret_def)
next
  case (Cons st stages)
  from Cons.prems have st: "supported st"
    "\<And>tr. perform pg tr (stage_action timeoutMs st) = wait_answer (holds_at st) timeoutMs"
    and rest: "\<forall>st \<in> set stages. supported st" "honours pg holds_at stages timeoutMs"
    by (simp_all add: honours_def)
  from stage_promise_honoured [of st pg timeoutMs holds_at w, OF st]
    Cons.IH [OF rest, of "w\<lparr>trace := trace w @ [stage_action timeoutMs st]\<rparr>"]
  show ?case by (simp add: io_bind_def ret_def)
qed

lemma raceStages_honoured:
  assumes "\<forall>st \<in> set stages. supported st" and "honours pg holds_at stages timeoutMs"
  shows "io_bind (raceStages pg stages timeoutMs) await w =
           await (promise_race (map (stage_settles holds_at timeoutMs) stages))
             (w\<lparr>trace := trace w @ map (stage_action timeoutMs) stages\<rparr>)"
  using map_io_stage_promise [OF assms, of w]
  by (simp add: raceStages_def io_bind_def ret_def)

section \<open>Runs on the concrete pages\<close>

lemmas run_defs = ret_def throw_def io_bind_def seq_def try_catch_def ignoring_def if_then_def
  await_def suspend_def sleep_def await_unit_def pthen_def pcatch_def promise_race_def
  promise_all_def rejecting_def waitForAnySelector_def waitForText_def click_or_def type_into_def

lemmas form_defs = fill_row_def goToNewTransaction_def fill_cardNumber_def
  tick_skipPremiumFraud_def formValues_cardNumber_def formValues_billingCountryName_def
  formValues_cardholderName_def formValues_billingPostalCode_def BRAND_def
  strip_non_digits_def Let_def

lemmas main_defs = main_def main_try_def login_def raceStages_def stage_promise_def
  process_row_def submit_or_pause_def capture_and_return_def back_to_transactions_def
  capture_status_def writeStatusToExcel_def store_status_def REVIEW_MODE_def hasFlag_def
  STATUS_WAIT_TIMEOUT_MS_def env_or_def

lemma call_blank: "call env_blank a w = (Returns (), w\<lparr>trace := trace w @ [a]\<rparr>)"
  by (simp add: env_blank_def call_def io_bind_def issue_def await_def)

lemma issue_blank:
  "issue (perform env_blank) a w = (Returns (Later 0 (Inr ())), w\<lparr>trace := trace w @ [a]\<rparr>)"
  by (simp add: env_blank_def issue_def)

lemma call_text_blank: "call_text env_blank a w = (Returns [], w\<lparr>trace := trace w @ [a]\<rparr>)"
  by (simp add: env_blank_def call_text_def io_bind_def issue_def await_def)

lemma call_flag_blank: "call_flag env_blank a w = (Returns False, w\<lparr>trace := trace w @ [a]\<rparr>)"
  by (simp add: env_blank_def call_flag_def io_bind_def issue_def await_def)

lemmas blank_simps = call_blank issue_blank call_text_blank call_flag_blank

lemma row_demo_values:
  "statusCell row_demo = []"
  "cvvDigitsEarly row_demo = ''123''"
  "first4Digits row_demo = ''4111''"
  "last12Digits row_demo = ''111111111111''"
  "formValues_merchantAccount row_demo = ''acct_1''"
  "formValues_amount row_demo = ''10.00''"
  "formValues_orderId row_demo = ''R100''"
  "formValues_customerFirstName row_demo = []"
  "formValues_expirationDate row_demo = ''12/2030''"
  "formValues_cvv row_demo = ''123''"
  by (simp_all add: row_demo_def statusCell_def cvvDigitsEarly_def first4Digits_def
      last12Digits_def formValues_merchantAccount_def formValues_amount_def formValues_orderId_def
      formValues_customerFirstName_def formValues_expirationDate_def formValues_cvv_def
      valueByHeaders_def normalizedRow_def text_defs)

lemma waitForStatusText_blank:
  "waitForStatusText env_blank 1000 w =
     (Throws (StatusTimedOut 1000 []),
      w\<lparr>now := now w + 2000, trace := trace w @ [EvalStatusText, EvalStatusText, EvalStatusText]\<rparr>)"
  by (simp add: waitForStatusText_def blank_simps run_defs)

lemma fill_row_blank_agoda: "fst (fill_row cfg_agoda env_blank row_demo w) = Returns ()"
  by (simp add: form_defs cfg_agoda_def row_demo_values blank_simps run_defs)

lemma login_blank: "fst (login cfg env_blank w) = Returns ()"
  by (simp add: login_def raceStages_def stage_promise_def blank_simps run_defs)

lemma read_blank_line: "readAllRowsFromExcel (workbook world_blank_line) = Inr [row_R100, row_R200]"
  by code_simp

lemma read_demo: "readAllRowsFromExcel (workbook world0) = Inr [row_demo, row_demo]"
  by code_simp

lemma cells_blank_line:
  "cells sheet_blank_line (2, 2) = Some ''Approved''"
  "cells (write_status sheet_blank_line (Suc 0) ''Settled'') (2, 2) = Some ''Settled''"
  "cells (write_status sheet_blank_line (Suc 0) ''Settled'') (3, 2) = None"
  by code_simp+

lemma cells_demo_written:
  "cells (write_status (write_status sheet_demo 0 []) (Suc 0) []) (0, 7) = Some ''STATUS''"
  "cells (write_status (write_status sheet_demo 0 []) (Suc 0) []) (Suc 0, 7) = Some []"
  "cells (write_status (write_status sheet_demo 0 []) (Suc 0) []) (2, 7) = Some []"
  by code_simp+

lemma call_settled: "call env_settled a w = (Returns (), w\<lparr>trace := trace w @ [a]\<rparr>)"
  by (simp add: env_settled_def call_def io_bind_def issue_def await_def)

lemma issue_settled:
  "issue (perform env_settled) a w = (Returns (Later 0 (Inr ())), w\<lparr>trace := trace w @ [a]\<rparr>)"
  by (simp add: env_settled_def issue_def)

lemma call_text_settled:
  "call_text env_settled a w = (Returns ''Settled'', w\<lparr>trace := trace w @ [a]\<rparr>)"
  by (simp add: env_settled_def call_text_def io_bind_def issue_def await_def)

lemma call_flag_settled:
  "call_flag env_settled a w = (Returns False, w\<lparr>trace := trace w @ [a]\<rparr>)"
  by (simp add: env_settled_def call_flag_def io_bind_def issue_def await_def)

lemmas settled_simps = call_settled issue_settled call_text_settled call_flag_settled

lemma waitForStatusText_settled:
  "waitForStatusText env_settled t w = (Returns ''Settled'', w\<lparr>trace := trace w @ [EvalStatusText]\<rparr>)"
  by (simp add: waitForStatusText_def call_text_settled)

lemma row_R100_values: "statusCell row_R100 = ''Approved''"
  by (simp add: row_R100_def statusCell_def text_defs)

lemma row_R200_values:
  "statusCell row_R200 = []"
  "cvvDigitsEarly row_R200 = ''456''"
  "first4Digits row_R200 = []"
  "last12Digits row_R200 = []"
  "formValues_merchantAccount row_R200 = []"
  "formValues_amount row_R200 = []"
  "formValues_orderId row_R200 = ''R200''"
  "formValues_customerFirstName row_R200 = []"
  "formValues_expirationDate row_R200 = []"
  "formValues_cvv row_R200 = ''456''"
  by (simp_all add: row_R200_def statusCell_def cvvDigitsEarly_def first4Digits_def
      last12Digits_def formValues_merchantAccount_def formValues_amount_def formValues_orderId_def
      formValues_customerFirstName_def formValues_expirationDate_def formValues_cvv_def
      valueByHeaders_def normalizedRow_def text_defs)

lemma run_blank_line:
  "fst (main cfg_booking env_settled (Inr [row_R100, row_R200]) world_blank_line) = Exit 0"
  "loud (trace (snd (main cfg_booking env_settled (Inr [row_R100, row_R200]) world_blank_line)))
     = [EvalSubmit, EvalStatusText, WriteStatus 1 ''Settled'']"
  "workbook (snd (main cfg_booking env_settled (Inr [row_R100, row_R200]) world_blank_line))
     = Some (write_status sheet_blank_line (Suc 0) ''Settled'')"
  by (simp_all add: main_defs form_defs cfg_booking_def waitForStatusText_settled
      world_blank_line_def row_R100_values row_R200_values settled_simps run_defs loud_def
      quiet_def)

lemma fill_row_blank_booking: "fst (fill_row cfg_booking env_blank row_demo w) = Returns ()"
  by (simp add: form_defs cfg_booking_def row_demo_values blank_simps run_defs)

lemma submit_blank: "fst (submit_or_pause cfg_booking env_blank w) = Returns ()"
  by (simp add: submit_or_pause_def REVIEW_MODE_def hasFlag_def BRAND_def cfg_booking_def
      blank_simps run_defs)

lemma back_blank: "fst (back_to_transactions env_blank w) = Returns ()"
  by (simp add: back_to_transactions_def blank_simps run_defs)

lemma ready_blank:
  "fst (ignoring (io_bind (waitForAnySelector env_blank sels t) await) w) = Returns ()"
  by (simp add: blank_simps run_defs)

lemma process_row_blank_booking:
  "fst (process_row cfg_booking env_blank idx row_demo w) = Returns ()"
  by (simp add: main_defs form_defs cfg_booking_def waitForStatusText_blank
      row_demo_values blank_simps run_defs split: option.splits)

section \<open>Skip policy\<close>

text \<open>
  A record whose status cell is non-empty after trimming is skipped: its iteration returns
  at once and leaves the world as it found it, so that no page-automation call is issued
  and the file is not touched in it. In a whole run, \<open>writeStatusToExcel\<close> is never
  called with the row index of such a record.
\<close>

lemma skipped_row_no_call_no_write_event:
  assumes "i < length rows" and "statusCell (rows ! i) \<noteq> []"
  shows "process_row cfg pg i (rows ! i) w = (Returns (), w) \<and>
         (\<forall>v. WriteStatus i v \<notin> set (drop (length (trace w0)) (trace (snd (main cfg pg (Inr rows) w0)))))"
proof
  from assms(2) show "process_row cfg pg i (rows ! i) w = (Returns (), w)"
    by (simp add: process_row_def ret_def)
next
  have "\<And>a. quiet a \<Longrightarrow> writes_pending 0 rows a"
    by (case_tac a) (simp_all add: quiet_def writes_pending_def)
  from main_trace [of "writes_pending 0 rows", OF this emits_main_try]
  obtain as where as: "trace (snd (main cfg pg (Inr rows) w0)) = trace w0 @ as"
    "list_all (writes_pending 0 rows) as"
    by blast
  have "WriteStatus i v \<notin> set as" for v
  proof
    assume "WriteStatus i v \<in> set as"
    with as(2) have "writes_pending 0 rows (WriteStatus i v)"
      by (simp add: list_all_iff)
    with assms(2) show False by (simp add: writes_pending_def)
  qed
  with as(1) show "\<forall>v. WriteStatus i v \<notin> set (drop (length (trace w0)) (trace (snd (main cfg pg (Inr rows) w0))))"
    by simp
qed

text \<open>
  Claim C1 holds of the skip itself and fails on the code for the stored value. The rows
  are counted without the blank lines of the sheet, but \<open>writeStatusToExcel\<close> counts
  sheet lines. On the file with a blank line 1, the record \<open>R100\<close> on line 2 is row 0 and
  is skipped, with \<open>Approved\<close> as its status; the record \<open>R200\<close> on line 3 is row 1, and
  its result \<open>Settled\<close> is written to line 2: the stored status of the skipped record
  changes from \<open>Approved\<close> to \<open>Settled\<close>, and the record that was processed has none.
\<close>

theorem existing_status_overwritten_after_blank_line:
  "readAllRowsFromExcel (workbook world_blank_line) = Inr [row_R100, row_R200] \<and>
   statusCell row_R100 = ''Approved'' \<and>
   stored world_blank_line (2, 2) = Some ''Approved'' \<and>
   fst (main cfg_booking env_settled (Inr [row_R100, row_R200]) world_blank_line) = Exit 0 \<and>
   loud (trace (snd (main cfg_booking env_settled (Inr [row_R100, row_R200]) world_blank_line)))
     = [EvalSubmit, EvalStatusText, WriteStatus 1 ''Settled''] \<and>
   stored (snd (main cfg_booking env_settled (Inr [row_R100, row_R200]) world_blank_line)) (2, 2)
     = Some ''Settled'' \<and>
   stored (snd (main cfg_booking env_settled (Inr [row_R100, row_R200]) world_blank_line)) (3, 2)
     = None"
proof -
  have "stored world_blank_line (2, 2) = Some ''Approved''"
    by (simp add: stored_def world_blank_line_def cells_blank_line)
  moreover have
    "stored (snd (main cfg_booking env_settled (Inr [row_R100, row_R200]) world_blank_line)) (2, 2)
       = Some ''Settled''"
    "stored (snd (main cfg_booking env_settled (Inr [row_R100, row_R200]) world_blank_line)) (3, 2)
       = None"
    by (simp_all add: stored_def run_blank_line cells_blank_line)
  ultimately show ?thesis
    by (simp add: read_blank_line row_R100_values run_blank_line)
qed

text \<open>
  Claim C2. A record with an empty status cell whose CVV, stripped of its non-digits, has
  fewer than three characters is skipped: its iteration returns at once and leaves the
  world as it found it, so that there is no navigation, no form fill and no submission.
\<close>

theorem short_cvv_row_skipped:
  assumes "statusCell row = []" and "length (cvvDigitsEarly row) < 3"
  shows "process_row cfg pg idx row w = (Returns (), w)"
  using assms by (simp add: process_row_def ret_def)

theorem short_cvv_row_skipped_witness:
  "statusCell [(''MAIDS'', ''acct_1''), (''CVV'', ''12'')] = [] \<and>
   cvvDigitsEarly [(''MAIDS'', ''acct_1''), (''CVV'', ''12'')] = ''12'' \<and>
   process_row cfg_booking env_blank 0 [(''MAIDS'', ''acct_1''), (''CVV'', ''12'')] world0
     = (Returns (), world0)"
proof -
  have s: "statusCell [(''MAIDS'', ''acct_1''), (''CVV'', ''12'')] = []"
    by (simp add: statusCell_def text_defs)
  have c: "cvvDigitsEarly [(''MAIDS'', ''acct_1''), (''CVV'', ''12'')] = ''12''"
    by (simp add: cvvDigitsEarly_def valueByHeaders_def text_defs)
  from short_cvv_row_skipped [of "[(''MAIDS'', ''acct_1''), (''CVV'', ''12'')]" cfg_booking env_blank 0 world0]
  show ?thesis using s c by simp
qed

section \<open>The stage race\<close>

text \<open>
  Claim C3. Let the stages be of the two supported types and let the page answer their
  waits as Puppeteer does. If stage \<open>i\<close> is satisfied at a time \<open>t\<close> before the deadline,
  earlier than every stage before it in the list and no later than every stage after it,
  then the awaited race returns the name of stage \<open>i\<close> at time \<open>t\<close>: it does not wait for
  any other stage, whether that one is satisfied later or never. All waits have been
  issued, in list order.
\<close>

theorem raceStages_first_satisfied_wins:
  assumes types: "\<forall>st \<in> set stages. supported st"
      and page: "honours pg holds_at stages timeoutMs"
      and i: "i < length stages"
      and sat: "holds_at (stages ! i) = Some t" "t < timeoutMs"
      and first: "\<forall>j < length stages. \<forall>t'. holds_at (stages ! j) = Some t' \<longrightarrow>
                    (if j < i then t < t' else t \<le> t')"
  shows "io_bind (raceStages pg stages timeoutMs) await w =
           (Returns (stage_name (stages ! i)),
            w\<lparr>now := now w + t, trace := trace w @ map (stage_action timeoutMs) stages\<rparr>)"
proof -
  let ?ps = "map (stage_settles holds_at timeoutMs) stages"
  from i sat have at_i: "?ps ! i = Later t (Inr (stage_name (stages ! i)))"
    by (simp add: stage_settles_def)
  have "\<forall>j < length ?ps. \<forall>t' r'. ?ps ! j = Later t' r' \<longrightarrow> (if j < i then t < t' else t \<le> t')"
  proof (intro allI impI)
    fix j t' r'
    assume j: "j < length ?ps" and l: "?ps ! j = Later t' r'"
    show "if j < i then t < t' else t \<le> t'"
    proof (cases "holds_at (stages ! j)")
      case None
      with j l have "t' = timeoutMs" by (simp add: stage_settles_def)
      with sat(2) show ?thesis by simp
    next
      case (Some u)
      show ?thesis
      proof (cases "u < timeoutMs")
        case True
        with j l Some have "t' = u" by (simp add: stage_settles_def)
        with first j Some show ?thesis by simp
      next
        case False
        with j l Some have "t' = timeoutMs" by (simp add: stage_settles_def)
        with sat(2) show ?thesis by simp
      qed
    qed
  qed
  with earliest_at [of i ?ps t "Inr (stage_name (stages ! i))"] i at_i
  have "earliest ?ps = Some (t, Inr (stage_name (stages ! i)))" by simp
  then have "promise_race ?ps = Later t (Inr (stage_name (stages ! i)))"
    by (simp add: promise_race_settles)
  with raceStages_honoured [OF types page, of w] show ?thesis
    by (simp add: await_def)
qed

theorem raceStages_first_satisfied_wins_witness:
  "io_bind (raceStages env_B_first [stage_A, stage_B] 1000) await world0 =
     (Returns ''B'',
      world0\<lparr>now := 500, trace := [WaitForFunctionAny [''#a''] 1000,
         WaitForFunctionText ''#b'' ''done'' 1000]\<rparr>)"
proof -
  let ?holds_at = "\<lambda>st. if stage_name st = ''B'' then Some (500::nat) else None"
  have types: "\<forall>st \<in> set [stage_A, stage_B]. supported st"
    by (simp add: supported_def stage_A_def stage_B_def)
  have page: "honours env_B_first ?holds_at [stage_A, stage_B] 1000"
    by (simp add: honours_def env_B_first_def stage_action_def wait_answer_def stage_A_def
        stage_B_def)
  have first: "\<forall>j < length [stage_A, stage_B]. \<forall>t'. ?holds_at ([stage_A, stage_B] ! j) = Some t' \<longrightarrow>
      (if j < 1 then 500 < t' else 500 \<le> t')"
    by (simp add: stage_A_def stage_B_def less_Suc_eq)
  from raceStages_first_satisfied_wins [of "[stage_A, stage_B]" env_B_first ?holds_at 1000 1 500
      world0, OF types page _ _ _ first]
  show ?thesis
    by (simp add: stage_A_def stage_B_def stage_action_def world0_def)
qed

text \<open>
  Claim C7, as stated, fails. On a page where no condition ever becomes true, the race
  over the stages \<open>A\<close> and \<open>B\<close> and the race over \<open>B\<close> alone fail with the same error,
  which therefore does not carry the stages attempted; and the race over no stage at all
  does not fail: it never settles.
\<close>

theorem raceStages_timeout_counterexample:
  "fst (io_bind (raceStages env_never [stage_A, stage_B] 1000) await world0)
     = Throws (TimeoutError 1000) \<and>
   fst (io_bind (raceStages env_never [stage_B] 1000) await world0)
     = Throws (TimeoutError 1000) \<and>
   fst (io_bind (raceStages env_never [] 1000) await world0) = Suspends"
  by (simp add: raceStages_def stage_promise_def stage_A_def stage_B_def env_never_def
      issue_def world0_def run_defs)

text \<open>
  Claim C7, amended. For a non-empty list of stages of the two supported types, a positive
  timeout and a page that answers the waits as Puppeteer does: if no stage is satisfied
  before the deadline, the awaited race throws, at the deadline, the timeout error of the
  page-automation layer for a single wait, passed on as it is. The error carries the
  deadline value and nothing of the stages attempted.
\<close>

theorem raceStages_timeout_passes_on_page_error:
  assumes stages: "stages \<noteq> []"
      and types: "\<forall>st \<in> set stages. supported st"
      and positive: "0 < timeoutMs"
      and page: "honours pg holds_at stages timeoutMs"
      and none: "\<forall>st \<in> set stages. \<forall>t. holds_at st = Some t \<longrightarrow> timeoutMs \<le> t"
  shows "io_bind (raceStages pg stages timeoutMs) await w =
           (Throws (TimeoutError timeoutMs),
            w\<lparr>now := now w + timeoutMs, trace := trace w @ map (stage_action timeoutMs) stages\<rparr>)"
proof -
  let ?ps = "map (stage_settles holds_at timeoutMs) stages"
  have all: "stage_settles holds_at timeoutMs st = Later timeoutMs (Inl (TimeoutError timeoutMs))"
    if "st \<in> set stages" for st
    using none that by (auto simp: stage_settles_def split: option.splits)
  from stages have len: "0 < length ?ps" by simp
  from stages all have at_0: "?ps ! 0 = Later timeoutMs (Inl (TimeoutError timeoutMs))"
    by (cases stages) simp_all
  have "\<forall>j < length ?ps. \<forall>t' r'. ?ps ! j = Later t' r' \<longrightarrow>
      (if j < 0 then timeoutMs < t' else timeoutMs \<le> t')"
    using all by (auto simp: nth_mem)
  from earliest_at [OF len at_0 this]
  have "promise_race ?ps = Later timeoutMs (Inl (TimeoutError timeoutMs))"
    by (simp add: promise_race_settles)
  with raceStages_honoured [OF types page, of w] show ?thesis
    by (simp add: await_def)
qed

theorem raceStages_timeout_passes_on_page_error_witness:
  "io_bind (raceStages env_never [stage_A, stage_B] 1000) await world0 =
     (Throws (TimeoutError 1000),
      world0\<lparr>now := 1000, trace := [WaitForFunctionAny [''#a''] 1000,
         WaitForFunctionText ''#b'' ''done'' 1000]\<rparr>)"
proof -
  let ?holds_at = "\<lambda>st::stage. None :: nat option"
  have types: "\<forall>st \<in> set [stage_A, stage_B]. supported st"
    by (simp add: supported_def stage_A_def stage_B_def)
  have page: "honours env_never ?holds_at [stage_A, stage_B] 1000"
    by (simp add: honours_def env_never_def stage_action_def wait_answer_def stage_A_def
        stage_B_def)
  from raceStages_timeout_passes_on_page_error [of "[stage_A, stage_B]" 1000 env_never ?holds_at
      world0, OF _ types _ page]
  show ?thesis
    by (simp add: stage_A_def stage_B_def stage_action_def world0_def)
qed

section \<open>The result poll and its retry\<close>

text \<open>
  Claim C4, as the specification states it, fails: when both result polls time out, the
  error does not leave the row orchestrator. On a page whose status text stays empty,
  with a result wait of one second, each poll attempt reads the text three times and
  times out; the two-attempt block nevertheless returns the empty string. In a run over
  the file with two records the empty status is written for record 0, record 1 is
  submitted, polled and written in the same way, and the process exits with status 0;
  the file then has a \<open>STATUS\<close> column with an empty cell on both lines.
\<close>

theorem both_polls_timeout_counterexample:
  "fst (waitForStatusText env_blank (STATUS_WAIT_TIMEOUT_MS cfg_booking) world0)
     = Throws (StatusTimedOut 1000 []) \<and>
   capture_status cfg_booking env_blank world0 =
     (Returns [], world0\<lparr>now := 6000, trace := [EvalStatusText, EvalStatusText, EvalStatusText,
        EvalStatusText, EvalStatusText, EvalStatusText]\<rparr>) \<and>
   readAllRowsFromExcel (workbook world0) = Inr [row_demo, row_demo] \<and>
   fst (main cfg_booking env_blank (Inr [row_demo, row_demo]) world0) = Exit 0 \<and>
   loud (trace (snd (main cfg_booking env_blank (Inr [row_demo, row_demo]) world0))) =
     [EvalSubmit, EvalStatusText, EvalStatusText, EvalStatusText, EvalStatusText,
      EvalStatusText, EvalStatusText, WriteStatus 0 [],
      EvalSubmit, EvalStatusText, EvalStatusText, EvalStatusText, EvalStatusText,
      EvalStatusText, EvalStatusText, WriteStatus 1 []] \<and>
   stored (snd (main cfg_booking env_blank (Inr [row_demo, row_demo]) world0)) (0, 7)
     = Some ''STATUS'' \<and>
   stored (snd (main cfg_booking env_blank (Inr [row_demo, row_demo]) world0)) (1, 7) = Some [] \<and>
   stored (snd (main cfg_booking env_blank (Inr [row_demo, row_demo]) world0)) (2, 7) = Some []"
proof -
  have t: "STATUS_WAIT_TIMEOUT_MS cfg_booking = 1000"
    by (simp add: STATUS_WAIT_TIMEOUT_MS_def env_or_def cfg_booking_def)
  have "fst (waitForStatusText env_blank (STATUS_WAIT_TIMEOUT_MS cfg_booking) world0)
      = Throws (StatusTimedOut 1000 [])"
    by (simp add: t waitForStatusText_blank)
  moreover have "capture_status cfg_booking env_blank world0 =
     (Returns [], world0\<lparr>now := 6000, trace := [EvalStatusText, EvalStatusText, EvalStatusText,
        EvalStatusText, EvalStatusText, EvalStatusText]\<rparr>)"
    by (simp add: capture_status_def t waitForStatusText_blank world0_def run_defs)
  moreover have "fst (main cfg_booking env_blank (Inr [row_demo, row_demo]) world0) = Exit 0"
    by (simp add: main_defs form_defs cfg_booking_def waitForStatusText_blank world0_def
        row_demo_values blank_simps run_defs)
  moreover have "loud (trace (snd (main cfg_booking env_blank (Inr [row_demo, row_demo]) world0))) =
     [EvalSubmit, EvalStatusText, EvalStatusText, EvalStatusText, EvalStatusText,
      EvalStatusText, EvalStatusText, WriteStatus 0 [],
      EvalSubmit, EvalStatusText, EvalStatusText, EvalStatusText, EvalStatusText,
      EvalStatusText, EvalStatusText, WriteStatus 1 []]"
    by (simp add: main_defs form_defs cfg_booking_def waitForStatusText_blank world0_def
        row_demo_values blank_simps run_defs loud_def quiet_def)
  moreover have "workbook (snd (main cfg_booking env_blank (Inr [row_demo, row_demo]) world0))
      = Some (write_status (write_status sheet_demo 0 []) (Suc 0) [])"
    by (simp add: main_defs form_defs cfg_booking_def waitForStatusText_blank world0_def
        row_demo_values blank_simps run_defs)
  ultimately show ?thesis
    by (simp add: read_demo stored_def cells_demo_written)
qed

text \<open>
  Claim C4, amended. In auto-submit mode, let record \<open>k\<close> be reached, filled and
  submitted, and let the first result poll fail and, two seconds later, the second one
  fail too. Then the second failure is swallowed: the captured status is the empty string
  and the write-back is called with it for row index \<open>k\<close>, a failure of the write being
  ignored; the iteration carries on with the return to the transactions list, in the world
  the write left. When that return succeeds, the iteration of record \<open>k\<close> returns, the
  loop goes on with the records after \<open>k\<close>, and if \<open>k\<close> was the last record the process
  exits with status 0. The failed polls do not end the run.
\<close>

theorem both_polls_fail_run_goes_on:
  assumes start: "block [call pg ImportPuppeteer, call pg Launch] w0 = (Returns (), w1)"
      and login: "login cfg pg w1 = (Returns (), w2)"
      and before: "rows_loop cfg pg 0 (take k rows) w2 = (Returns (), w3)"
      and k: "k < length rows"
      and auto: "\<not> REVIEW_MODE cfg"
      and todo: "statusCell (rows ! k) = []" "\<not> length (cvvDigitsEarly (rows ! k)) < 3"
      and filled: "fill_row cfg pg (rows ! k) w3 = (Returns (), w4)"
      and submitted: "submit_or_pause cfg pg w4 = (Returns (), w5)"
      and ready: "ignoring (io_bind (waitForAnySelector pg SELECTORS_submitPage
                    (STATUS_WAIT_TIMEOUT_MS cfg)) await) w5 = (Returns (), w6)"
      and first: "waitForStatusText pg (STATUS_WAIT_TIMEOUT_MS cfg) w6 = (Throws e1, w7)"
      and second: "waitForStatusText pg (STATUS_WAIT_TIMEOUT_MS cfg) (w7\<lparr>now := now w7 + 2000\<rparr>)
                     = (Throws e2, w8)"
      and written: "ignoring (writeStatusToExcel pg k []) w8 = (Returns (), w9)"
      and returned: "back_to_transactions pg w9 = (Returns (), w10)"
  shows "capture_status cfg pg w6 = (Returns [], w8) \<and>
         trace w9 = trace w8 @ [WriteStatus k []] \<and>
         capture_and_return cfg pg k w5 = back_to_transactions pg w9 \<and>
         process_row cfg pg k (rows ! k) w3 = (Returns (), w10) \<and>
         main_try cfg pg (Inr rows) w1 = rows_loop cfg pg (Suc k) (drop (Suc k) rows) w10 \<and>
         (Suc k = length rows \<longrightarrow> fst (main cfg pg (Inr rows) w0) = Exit 0)"
proof -
  from first second have captured: "capture_status cfg pg w6 = (Returns [], w8)"
    by (simp add: capture_status_def try_catch_def seq_def io_bind_def sleep_def await_def ret_def)
  from written trace_ignoring_write [of pg k "[]" w8]
  have trace: "trace w9 = trace w8 @ [WriteStatus k []]" by simp
  from captured written
  have "io_bind (capture_status cfg pg)
      (\<lambda>statusText. ignoring (writeStatusToExcel pg k statusText)) w6 = (Returns (), w9)"
    by (simp add: io_bind_Returns)
  with auto ready
  have rest: "capture_and_return cfg pg k w5 = back_to_transactions pg w9"
    by (simp add: capture_and_return_def if_then_def seq_Returns seq_ret_unit)
  with returned have "capture_and_return cfg pg k w5 = (Returns (), w10)" by simp
  with todo filled submitted
  have row: "process_row cfg pg k (rows ! k) w3 = (Returns (), w10)"
    by (simp add: process_row_def seq_def io_bind_def ret_def)
  from rows_loop_goes_on [OF before k] row
  have "rows_loop cfg pg 0 rows w2 = rows_loop cfg pg (Suc k) (drop (Suc k) rows) w10"
    by simp
  with login
  have body: "main_try cfg pg (Inr rows) w1 = rows_loop cfg pg (Suc k) (drop (Suc k) rows) w10"
    by (simp add: main_try_def seq_def io_bind_def)
  have "fst (main cfg pg (Inr rows) w0) = Exit 0" if "Suc k = length rows"
  proof -
    from that body have "main_try cfg pg (Inr rows) w1 = (Returns (), w10)"
      by (simp add: ret_def)
    with start trace_ignoring_call [of pg BrowserClose w10] show ?thesis
      by (cases "ignoring (call pg BrowserClose) w10") (simp add: main_def)
  qed
  with captured trace rest row body show ?thesis by simp
qed

theorem both_polls_fail_run_goes_on_witness:
  "\<not> REVIEW_MODE cfg_booking \<and>
   fst (waitForStatusText env_blank (STATUS_WAIT_TIMEOUT_MS cfg_booking) world0)
     = Throws (StatusTimedOut 1000 []) \<and>
   fst (main cfg_booking env_blank (Inr [row_demo, row_demo]) world0) = Exit 0"
proof -
  let ?T = "STATUS_WAIT_TIMEOUT_MS cfg_booking"
  let ?w1 = "world0\<lparr>trace := [ImportPuppeteer, Launch]\<rparr>"
  let ?w2 = "snd (login cfg_booking env_blank ?w1)"
  let ?w3 = "snd (process_row cfg_booking env_blank 0 row_demo ?w2)"
  let ?w4 = "snd (fill_row cfg_booking env_blank row_demo ?w3)"
  let ?w5 = "snd (submit_or_pause cfg_booking env_blank ?w4)"
  let ?w6 = "snd (ignoring (io_bind (waitForAnySelector env_blank SELECTORS_submitPage ?T) await) ?w5)"
  let ?w7 = "?w6\<lparr>now := now ?w6 + 2000,
    trace := trace ?w6 @ [EvalStatusText, EvalStatusText, EvalStatusText]\<rparr>"
  let ?w7' = "?w7\<lparr>now := now ?w7 + 2000\<rparr>"
  let ?w8 = "?w7'\<lparr>now := now ?w7' + 2000,
    trace := trace ?w7' @ [EvalStatusText, EvalStatusText, EvalStatusText]\<rparr>"
  let ?w9 = "snd (ignoring (writeStatusToExcel env_blank 1 []) ?w8)"
  let ?w10 = "snd (back_to_transactions env_blank ?w9)"
  have t: "?T = 1000"
    by (simp add: STATUS_WAIT_TIMEOUT_MS_def env_or_def cfg_booking_def)
  have auto: "\<not> REVIEW_MODE cfg_booking"
    by (simp add: REVIEW_MODE_def hasFlag_def BRAND_def cfg_booking_def)
  have start: "block [call env_blank ImportPuppeteer, call env_blank Launch] world0 = (Returns (), ?w1)"
    by (simp add: blank_simps world0_def run_defs)
  have login: "login cfg_booking env_blank ?w1 = (Returns (), ?w2)"
    by (rule pair_fstI) (rule login_blank)
  have "process_row cfg_booking env_blank 0 row_demo ?w2 = (Returns (), ?w3)"
    by (rule pair_fstI) (rule process_row_blank_booking)
  then have before: "rows_loop cfg_booking env_blank 0 (take 1 [row_demo, row_demo]) ?w2
      = (Returns (), ?w3)"
    by (simp add: seq_ret_unit)
  have k: "1 < length [row_demo, row_demo]"
    and todo: "statusCell ([row_demo, row_demo] ! 1) = []"
      "\<not> length (cvvDigitsEarly ([row_demo, row_demo] ! 1)) < 3"
    by (simp_all add: row_demo_values)
  have "fill_row cfg_booking env_blank row_demo ?w3 = (Returns (), ?w4)"
    by (rule pair_fstI) (rule fill_row_blank_booking)
  then have filled: "fill_row cfg_booking env_blank ([row_demo, row_demo] ! 1) ?w3 = (Returns (), ?w4)"
    by simp
  have submitted: "submit_or_pause cfg_booking env_blank ?w4 = (Returns (), ?w5)"
    by (rule pair_fstI) (rule submit_blank)
  have ready: "ignoring (io_bind (waitForAnySelector env_blank SELECTORS_submitPage ?T) await) ?w5
      = (Returns (), ?w6)"
    by (rule pair_fstI) (rule ready_blank)
  have first: "waitForStatusText env_blank ?T ?w6 = (Throws (StatusTimedOut 1000 []), ?w7)"
    unfolding t by (rule waitForStatusText_blank)
  have second: "waitForStatusText env_blank ?T (?w7\<lparr>now := now ?w7 + 2000\<rparr>)
      = (Throws (StatusTimedOut 1000 []), ?w8)"
    unfolding t by (rule waitForStatusText_blank)
  have written: "ignoring (writeStatusToExcel env_blank 1 []) ?w8 = (Returns (), ?w9)"
    by (rule pair_fstI) (simp add: trace_ignoring_write)
  have returned: "back_to_transactions env_blank ?w9 = (Returns (), ?w10)"
    by (rule pair_fstI) (rule back_blank)
  note run = both_polls_fail_run_goes_on [OF start login before k auto todo filled submitted
      ready first second written returned]
  from run have "fst (main cfg_booking env_blank (Inr [row_demo, row_demo]) world0) = Exit 0"
    by simp
  moreover have "fst (waitForStatusText env_blank ?T world0) = Throws (StatusTimedOut 1000 [])"
    by (simp add: t waitForStatusText_blank)
  ultimately show ?thesis using auto by simp
qed

section \<open>Failures and the end of the run\<close>

text \<open>
  Claim C5. When the records before record \<open>k\<close> have been processed and the iteration of
  record \<open>k\<close> throws, the loop throws the same error in the same world, so that no later
  record begins; \<open>main\<close> then closes the browser, which is the last action of the run,
  and the process exits with status 1.
\<close>

theorem unhandled_row_error_aborts_run:
  assumes start: "block [call pg ImportPuppeteer, call pg Launch] w0 = (Returns (), w1)"
      and login: "login cfg pg w1 = (Returns (), w2)"
      and before: "rows_loop cfg pg 0 (take k rows) w2 = (Returns (), w3)"
      and k: "k < length rows"
      and fails: "process_row cfg pg k (rows ! k) w3 = (Throws e, w4)"
  shows "rows_loop cfg pg 0 rows w2 = (Throws e, w4) \<and>
         fst (main cfg pg (Inr rows) w0) = Exit 1 \<and>
         trace (snd (main cfg pg (Inr rows) w0)) = trace w4 @ [BrowserClose]"
proof -
  from rows_loop_stops [OF before k] fails
  have loop: "rows_loop cfg pg 0 rows w2 = (Throws e, w4)" by simp
  with login have body: "main_try cfg pg (Inr rows) w1 = (Throws e, w4)"
    by (simp add: main_try_def seq_def io_bind_def)
  obtain r5 w5 where close: "ignoring (call pg BrowserClose) w4 = (r5, w5)"
    by (cases "ignoring (call pg BrowserClose) w4")
  with trace_ignoring_call [of pg BrowserClose w4]
  have "r5 = Returns ()" "trace w5 = trace w4 @ [BrowserClose]" by simp_all
  with start body close loop show ?thesis
    by (simp add: main_def)
qed

theorem unhandled_row_error_aborts_run_witness:
  "fst (process_row cfg_booking env_stuck 0 row_demo
          (world0\<lparr>trace := [ImportPuppeteer, Launch, NewPage,
             Goto ''https://www.braintreegateway.com/login'' 60000,
             WaitForFunctionAny SELECTORS_login 30000,
             WaitForFunctionAny SELECTORS_otp 600000,
             WaitForFunctionAny SELECTORS_dashboard 600000,
             WaitForFunctionText ''h2.unified-login__title'' ''Two-Factor Authentication'' 5000,
             WaitForFunctionAny SELECTORS_dashboard 600000]\<rparr>))
     = Throws (TimeoutError 20000) \<and>
   fst (main cfg_booking env_stuck (Inr [row_demo, row_demo]) world0) = Exit 1 \<and>
   trace (snd (main cfg_booking env_stuck (Inr [row_demo, row_demo]) world0)) =
     [ImportPuppeteer, Launch, NewPage,
      Goto ''https://www.braintreegateway.com/login'' 60000,
      WaitForFunctionAny SELECTORS_login 30000,
      WaitForFunctionAny SELECTORS_otp 600000,
      WaitForFunctionAny SELECTORS_dashboard 600000,
      WaitForFunctionText ''h2.unified-login__title'' ''Two-Factor Authentication'' 5000,
      WaitForFunctionAny SELECTORS_dashboard 600000,
      WaitForFunctionAny SELECTORS_transactionsLink 20000,
      BrowserClose]"
proof -
  let ?w1 = "world0\<lparr>trace := [ImportPuppeteer, Launch]\<rparr>"
  let ?w2 = "world0\<lparr>trace := [ImportPuppeteer, Launch, NewPage,
             Goto ''https://www.braintreegateway.com/login'' 60000,
             WaitForFunctionAny SELECTORS_login 30000,
             WaitForFunctionAny SELECTORS_otp 600000,
             WaitForFunctionAny SELECTORS_dashboard 600000,
             WaitForFunctionText ''h2.unified-login__title'' ''Two-Factor Authentication'' 5000,
             WaitForFunctionAny SELECTORS_dashboard 600000]\<rparr>"
  let ?w4 = "?w2\<lparr>now := 20000, trace := trace ?w2 @ [WaitForFunctionAny SELECTORS_transactionsLink 20000]\<rparr>"
  have c: "call env_stuck a w =
      (if a = WaitForFunctionAny SELECTORS_transactionsLink 20000
       then (Throws (TimeoutError 20000), w\<lparr>now := now w + 20000, trace := trace w @ [a]\<rparr>)
       else (Returns (), w\<lparr>trace := trace w @ [a]\<rparr>))" for a w
    by (simp add: env_stuck_def call_def io_bind_def issue_def await_def)
  have i: "issue (perform env_stuck) a w =
      (Returns (if a = WaitForFunctionAny SELECTORS_transactionsLink 20000
                then Later 20000 (Inl (TimeoutError 20000)) else Later 0 (Inr ())),
       w\<lparr>trace := trace w @ [a]\<rparr>)" for a w
    by (simp add: env_stuck_def issue_def)
  have start: "block [call env_stuck ImportPuppeteer, call env_stuck Launch] world0 = (Returns (), ?w1)"
    by (simp add: c world0_def run_defs)
  have login: "login cfg_booking env_stuck ?w1 = (Returns (), ?w2)"
    by (simp add: login_def raceStages_def stage_promise_def c i world0_def run_defs
        LOGIN_PAGE_LOAD_TIMEOUT_MS_def POST_LOGIN_WAIT_TIMEOUT_MS_def OTP_WAIT_TIMEOUT_MS_def
        env_or_def cfg_booking_def)
  have before: "rows_loop cfg_booking env_stuck 0 (take 0 [row_demo, row_demo]) ?w2 = (Returns (), ?w2)"
    by (simp add: ret_def)
  have fails: "process_row cfg_booking env_stuck 0 ([row_demo, row_demo] ! 0) ?w2
      = (Throws (TimeoutError 20000), ?w4)"
    by (simp add: process_row_def fill_row_def goToNewTransaction_def row_demo_values c i
        world0_def run_defs)
  from unhandled_row_error_aborts_run [OF start login before _ fails] fails
  show ?thesis by (simp add: world0_def)
qed

section \<open>The card-number read-back\<close>



section \<open>Review mode\<close>

text \<open>
  Claim C8. In review mode, when the records before record \<open>k\<close> have been processed,
  record \<open>k\<close> is not skipped and its navigation and form fill complete, the run ends
  there: \<open>main\<close> never exits and its world is the one in which the fill completed, so
  that nothing is submitted, polled or written for the record and no further record
  begins. Moreover, whatever the page and the sheet, a run in review mode issues no
  submission, no result poll and no write-back at all.
\<close>

theorem review_mode_suspends_after_fill:
  assumes review: "REVIEW_MODE cfg"
      and start: "block [call pg ImportPuppeteer, call pg Launch] w0 = (Returns (), w1)"
      and login: "login cfg pg w1 = (Returns (), w2)"
      and before: "rows_loop cfg pg 0 (take k rows) w2 = (Returns (), w3)"
      and k: "k < length rows"
      and todo: "statusCell (rows ! k) = []" "\<not> length (cvvDigitsEarly (rows ! k)) < 3"
      and filled: "fill_row cfg pg (rows ! k) w3 = (Returns (), w4)"
  shows "process_row cfg pg k (rows ! k) w3 = (Suspends, w4) \<and>
         main cfg pg (Inr rows) w0 = (NoExit, w4) \<and>
         loud (drop (length (trace w0)) (trace (snd (main cfg pg sheet w0)))) = []"
proof -
  from review todo filled
  have row: "process_row cfg pg k (rows ! k) w3 = (Suspends, w4)"
    by (simp add: process_row_def submit_or_pause_def suspend_def await_def seq_def io_bind_def)
  from rows_loop_stops [OF before k] row
  have "rows_loop cfg pg 0 rows w2 = (Suspends, w4)" by simp
  with login have "main_try cfg pg (Inr rows) w1 = (Suspends, w4)"
    by (simp add: main_try_def seq_def io_bind_def)
  with start have run: "main cfg pg (Inr rows) w0 = (NoExit, w4)"
    by (simp add: main_def)
  from main_trace [of quiet cfg pg sheet w0, OF _ emits_main_try_review [OF review]]
  obtain as where "trace (snd (main cfg pg sheet w0)) = trace w0 @ as" "list_all quiet as"
    by blast
  then have "loud (drop (length (trace w0)) (trace (snd (main cfg pg sheet w0)))) = []"
    by (simp add: loud_def list_all_iff filter_empty_conv)
  with row run show ?thesis by simp
qed

theorem review_mode_suspends_after_fill_witness:
  "REVIEW_MODE cfg_agoda \<and>
   fst (fill_row cfg_agoda env_blank row_demo (snd (login cfg_agoda env_blank
     (world0\<lparr>trace := [ImportPuppeteer, Launch]\<rparr>)))) = Returns () \<and>
   fst (main cfg_agoda env_blank (Inr [row_demo, row_demo]) world0) = NoExit \<and>
   loud (trace (snd (main cfg_agoda env_blank (Inr [row_demo, row_demo]) world0))) = []"
proof -
  let ?w1 = "world0\<lparr>trace := [ImportPuppeteer, Launch]\<rparr>"
  let ?w2 = "snd (login cfg_agoda env_blank ?w1)"
  let ?w4 = "snd (fill_row cfg_agoda env_blank row_demo ?w2)"
  have review: "REVIEW_MODE cfg_agoda"
    by (simp add: REVIEW_MODE_def hasFlag_def BRAND_def cfg_agoda_def)
  have start: "block [call env_blank ImportPuppeteer, call env_blank Launch] world0 = (Returns (), ?w1)"
    by (simp add: blank_simps world0_def run_defs)
  have login: "login cfg_agoda env_blank ?w1 = (Returns (), ?w2)"
    by (rule pair_fstI) (rule login_blank)
  have before: "rows_loop cfg_agoda env_blank 0 (take 0 [row_demo, row_demo]) ?w2 = (Returns (), ?w2)"
    by (simp add: ret_def)
  have "fill_row cfg_agoda env_blank row_demo ?w2 = (Returns (), ?w4)"
    by (rule pair_fstI) (rule fill_row_blank_agoda)
  then have filled: "fill_row cfg_agoda env_blank ([row_demo, row_demo] ! 0) ?w2 = (Returns (), ?w4)"
    by simp
  have k: "0 < length [row_demo, row_demo]"
    and todo: "statusCell ([row_demo, row_demo] ! 0) = []"
      "\<not> length (cvvDigitsEarly ([row_demo, row_demo] ! 0)) < 3"
    by (simp_all add: row_demo_values)
  note run = review_mode_suspends_after_fill [OF review start login before k todo filled,
      of "Inr [row_demo, row_demo]"]
  from run have "fst (main cfg_agoda env_blank (Inr [row_demo, row_demo]) world0) = NoExit"
    by simp
  moreover from run [THEN conjunct2, THEN conjunct2]
  have "loud (trace (snd (main cfg_agoda env_blank (Inr [row_demo, row_demo]) world0))) = []"
    by (simp add: world0_def)
  ultimately show ?thesis using review fill_row_blank_agoda [of ?w2]
    by simp
qed

section \<open>The status check and the header lookup\<close>




section \<open>Review mode from the command line\<close>

text \<open>
  Claim C10. Review mode is on exactly when the arguments contain \<open>--review\<close>, or
  contain \<open>--agoda\<close> and not \<open>--no-review\<close>. So the agoda brand is in review mode unless
  \<open>--no-review\<close> is passed, and the booking brand submits unless \<open>--review\<close> is passed.
\<close>

theorem REVIEW_MODE_iff_flags:
  "(REVIEW_MODE cfg \<longleftrightarrow>
      ''--review'' \<in> set (argv cfg) \<or>
      (''--agoda'' \<in> set (argv cfg) \<and> ''--no-review'' \<notin> set (argv cfg))) \<and>
   (BRAND cfg = ''agoda'' \<and> ''--no-review'' \<notin> set (argv cfg) \<longrightarrow> REVIEW_MODE cfg) \<and>
   (BRAND cfg = ''booking'' \<and> ''--review'' \<notin> set (argv cfg) \<longrightarrow> \<not> REVIEW_MODE cfg)"
  by (simp add: REVIEW_MODE_def hasFlag_def BRAND_def)

theorem REVIEW_MODE_iff_flags_witness:
  "BRAND cfg_agoda = ''agoda'' \<and> REVIEW_MODE cfg_agoda \<and>
   BRAND cfg_booking = ''booking'' \<and> \<not> REVIEW_MODE cfg_booking"
  using REVIEW_MODE_iff_flags [of cfg_agoda] REVIEW_MODE_iff_flags [of cfg_booking]
  by (simp add: cfg_agoda_def cfg_booking_def BRAND_def)

end
